theory Spec2Isabelle
  imports Complex_Main "HOL-Library.AList" "HOL-Library.Sublist"
begin

section \<open>The file system the validator runs on\<close>

text \<open>
  The validator of \<^verbatim>\<open>validate_github_limits_ver2.py\<close> and
  \<^verbatim>\<open>validate_github_limits_ver3.py\<close> talks to the file system through
  \<^verbatim>\<open>pathlib\<close>, \<^verbatim>\<open>os\<close> and \<^verbatim>\<open>shutil\<close>. The file system is a tree of
  named entries below the root directory; a path is the list of its components, read
  from the root. The entries of a directory are kept in the order in which the
  operating system lists them.

  Scope of the model: one device; a symbolic link holds an absolute target and is
  followed only when it is the last component of a path (the paths that \<^verbatim>\<open>rglob\<close>
  yields never pass through a linked directory, and the backup tree is taken to hold no
  linked directories); Python floats are exact rationals (a size in bytes divided by
  \<open>2\<^sup>2\<^sup>0\<close> is exact below \<open>2\<^sup>5\<^sup>3\<close> bytes, and time stamps are stored as they are read);
  \<open>Denied\<close> is an entry that its directory lists but whose \<^verbatim>\<open>stat\<close> raises
  \<^verbatim>\<open>PermissionError\<close>, which \<^verbatim>\<open>Path.is_file\<close> passes on (pathlib up to Python 3.12
  swallows only ENOENT, ENOTDIR, EBADF and ELOOP).
\<close>

type_synonym path = "string list"

datatype error =
    FileNotFoundError
  | FileExistsError
  | NotADirectoryError
  | IsADirectoryError
  | PermissionError
  | TooManyLinks
  | InvalidArgument
  | ShutilError
  | ValueError

record stat_result =
  st_size :: nat
  st_atime :: rat
  st_mtime :: rat

datatype node =
    File string stat_result
  | Symlink path stat_result
  | Dir stat_result "(string \<times> node) list"
  | Denied

text \<open>\<^verbatim>\<open>os.lstat\<close>: the entry a path names, the last component not followed.\<close>

fun lookup :: "node \<Rightarrow> path \<Rightarrow> error + node" where
  "lookup Denied p = Inl PermissionError"
| "lookup (File b st) [] = Inr (File b st)"
| "lookup (Symlink t st) [] = Inr (Symlink t st)"
| "lookup (Dir st es) [] = Inr (Dir st es)"
| "lookup (Dir st es) (x # xs) =
     (case map_of es x of None \<Rightarrow> Inl FileNotFoundError | Some c \<Rightarrow> lookup c xs)"
| "lookup (File b st) (x # xs) = Inl NotADirectoryError"
| "lookup (Symlink t st) (x # xs) = Inl NotADirectoryError"

text \<open>
  \<^verbatim>\<open>os.stat\<close>: the last component is followed through at most 40 links (Linux gives
  ELOOP beyond that); the result is the path reached and the entry there.
\<close>

fun follow :: "node \<Rightarrow> nat \<Rightarrow> path \<Rightarrow> error + (path \<times> node)" where
  "follow r 0 p =
     (case lookup r p of
        Inl e \<Rightarrow> Inl e
      | Inr (Symlink t st) \<Rightarrow> Inl TooManyLinks
      | Inr n \<Rightarrow> Inr (p, n))"
| "follow r (Suc k) p =
     (case lookup r p of
        Inl e \<Rightarrow> Inl e
      | Inr (Symlink t st) \<Rightarrow> follow r k t
      | Inr n \<Rightarrow> Inr (p, n))"

definition max_links :: nat where
  "max_links = 40"

fun node_stat :: "node \<Rightarrow> error + stat_result" where
  "node_stat (File b st) = Inr st"
| "node_stat (Symlink t st) = Inr st"
| "node_stat (Dir st es) = Inr st"
| "node_stat Denied = Inl PermissionError"

definition os_stat :: "node \<Rightarrow> path \<Rightarrow> error + stat_result" where
  "os_stat r p = (case follow r max_links p of Inl e \<Rightarrow> Inl e | Inr (q, n) \<Rightarrow> node_stat n)"

text \<open>
  The \<^verbatim>\<open>pathlib\<close> predicates: a missing entry, a non-directory on the way and a link
  loop answer \<^verbatim>\<open>False\<close>; any other error is raised.
\<close>

fun ignore_error :: "error \<Rightarrow> bool" where
  "ignore_error FileNotFoundError = True"
| "ignore_error NotADirectoryError = True"
| "ignore_error TooManyLinks = True"
| "ignore_error e = False"

definition is_file :: "node \<Rightarrow> path \<Rightarrow> error + bool" where
  "is_file r p =
     (case follow r max_links p of
        Inl e \<Rightarrow> (if ignore_error e then Inr False else Inl e)
      | Inr (q, File b st) \<Rightarrow> Inr True
      | Inr (q, n) \<Rightarrow> Inr False)"

definition is_dir :: "node \<Rightarrow> path \<Rightarrow> error + bool" where
  "is_dir r p =
     (case follow r max_links p of
        Inl e \<Rightarrow> (if ignore_error e then Inr False else Inl e)
      | Inr (q, Dir st es) \<Rightarrow> Inr True
      | Inr (q, n) \<Rightarrow> Inr False)"

definition is_symlink :: "node \<Rightarrow> path \<Rightarrow> error + bool" where
  "is_symlink r p =
     (case lookup r p of
        Inl e \<Rightarrow> (if ignore_error e then Inr False else Inl e)
      | Inr (Symlink t st) \<Rightarrow> Inr True
      | Inr n \<Rightarrow> Inr False)"

definition path_exists :: "node \<Rightarrow> path \<Rightarrow> error + bool" where
  "path_exists r p =
     (case follow r max_links p of
        Inl e \<Rightarrow> (if ignore_error e then Inr False else Inl e)
      | Inr (q, n) \<Rightarrow> Inr True)"

text \<open>\<^verbatim>\<open>os.path.isdir\<close> and \<^verbatim>\<open>os.path.exists\<close> answer \<^verbatim>\<open>False\<close> on every error.\<close>

definition os_path_isdir :: "node \<Rightarrow> path \<Rightarrow> bool" where
  "os_path_isdir r p = (case follow r max_links p of Inr (q, Dir st es) \<Rightarrow> True | _ \<Rightarrow> False)"

definition os_path_exists :: "node \<Rightarrow> path \<Rightarrow> bool" where
  "os_path_exists r p = (case follow r max_links p of Inr (q, n) \<Rightarrow> True | Inl e \<Rightarrow> False)"

text \<open>
  \<^verbatim>\<open>Path.rglob('*')\<close>: every entry below a directory. pathlib lists the entries of
  the directory itself, then goes into each entry that is a directory and not a link, in
  listing order. A start that is not a directory yields nothing, and no error.
\<close>

fun rglob_from :: "path \<Rightarrow> node \<Rightarrow> path list" where
  "rglob_from p (Dir st es) =
     map (\<lambda>(x, c). p @ [x]) es @ concat (map (\<lambda>(x, c). rglob_from (p @ [x]) c) es)"
| "rglob_from p (File b st) = []"
| "rglob_from p (Symlink t st) = []"
| "rglob_from p Denied = []"

definition rglob :: "node \<Rightarrow> path \<Rightarrow> path list" where
  "rglob r p = (case lookup r p of Inr (Dir st es) \<Rightarrow> rglob_from p (Dir st es) | _ \<Rightarrow> [])"

text \<open>\<^verbatim>\<open>Path.glob('*')\<close>: the immediate entries of a directory (a final link is followed).\<close>

definition glob_star :: "node \<Rightarrow> path \<Rightarrow> path list" where
  "glob_star r p =
     (case follow r max_links p of
        Inr (q, Dir st es) \<Rightarrow> map (\<lambda>(x, c). p @ [x]) es
      | _ \<Rightarrow> [])"


subsection \<open>Operations that change the tree\<close>

fun is_Dir :: "node \<Rightarrow> bool" where
  "is_Dir (Dir st es) = True"
| "is_Dir n = False"

fun entries :: "node \<Rightarrow> (string \<times> node) list" where
  "entries (Dir st es) = es"
| "entries n = []"

text \<open>
  \<open>put_entry r p n\<close> makes \<open>n\<close> the entry at \<open>p\<close> when the parent of \<open>p\<close> is a
  directory (a new name goes to the end of the listing); \<open>remove_entry r p\<close> takes the
  entry at \<open>p\<close> out of its directory.
\<close>

fun put_entry :: "node \<Rightarrow> path \<Rightarrow> node \<Rightarrow> node" where
  "put_entry r [] n = n"
| "put_entry (Dir st es) (x # xs) n =
     (case map_of es x of
        None \<Rightarrow> (if xs = [] then Dir st (AList.update x n es) else Dir st es)
      | Some c \<Rightarrow> Dir st (AList.update x (put_entry c xs n) es))"
| "put_entry (File b st) (x # xs) n = File b st"
| "put_entry (Symlink t st) (x # xs) n = Symlink t st"
| "put_entry Denied (x # xs) n = Denied"

fun remove_entry :: "node \<Rightarrow> path \<Rightarrow> node" where
  "remove_entry (Dir st es) (x # xs) =
     (if xs = [] then Dir st (AList.delete x es)
      else (case map_of es x of
              None \<Rightarrow> Dir st es
            | Some c \<Rightarrow> Dir st (AList.update x (remove_entry c xs) es)))"
| "remove_entry r p = r"

definition new_dir :: "rat \<Rightarrow> node" where
  "new_dir now = Dir \<lparr>st_size = 4096, st_atime = now, st_mtime = now\<rparr> []"

text \<open>
  \<^verbatim>\<open>Path.mkdir(parents=True, exist_ok=True)\<close>: the directories that are missing on the
  way are made; an existing directory is left as it is; an entry on the way that is not
  a directory raises, and nothing is made then. (A link counts as such an entry: the
  backup tree is taken to hold no linked directories.)
\<close>

fun mkdir_parents :: "rat \<Rightarrow> node \<Rightarrow> path \<Rightarrow> error + node" where
  "mkdir_parents now (Dir st es) [] = Inr (Dir st es)"
| "mkdir_parents now (Dir st es) (x # xs) =
     (case mkdir_parents now (case map_of es x of None \<Rightarrow> new_dir now | Some c \<Rightarrow> c) xs of
        Inl e \<Rightarrow> Inl e
      | Inr c' \<Rightarrow> Inr (Dir st (AList.update x c' es)))"
| "mkdir_parents now (File b st) [] = Inl FileExistsError"
| "mkdir_parents now (File b st) (x # xs) = Inl NotADirectoryError"
| "mkdir_parents now (Symlink t st) [] = Inl FileExistsError"
| "mkdir_parents now (Symlink t st) (x # xs) = Inl NotADirectoryError"
| "mkdir_parents now Denied p = Inl PermissionError"

text \<open>
  \<^verbatim>\<open>os.rename\<close> on one device: the entry at \<open>src\<close> becomes the entry at \<open>dst\<close>,
  replacing a file or link that is there; renaming a path onto itself does nothing. The
  validator renames regular files only; for a directory as source the error cases of
  POSIX are kept (onto a file, onto a directory that is not empty, into itself).
\<close>

definition os_rename :: "node \<Rightarrow> path \<Rightarrow> path \<Rightarrow> error + node" where
  "os_rename r src dst =
     (case lookup r src of
        Inl e \<Rightarrow> Inl e
      | Inr n \<Rightarrow>
          (case lookup r (butlast dst) of
             Inl e \<Rightarrow> Inl e
           | Inr d \<Rightarrow>
               if \<not> is_Dir d then Inl NotADirectoryError
               else if src = dst then Inr r
               else if src = [] \<or> dst = [] \<or> (is_Dir n \<and> prefix src dst) then Inl InvalidArgument
               else (case lookup r dst of
                       Inl e \<Rightarrow>
                         (if e = FileNotFoundError
                          then Inr (put_entry (remove_entry r src) dst n) else Inl e)
                     | Inr m \<Rightarrow>
                         if is_Dir m \<and> \<not> is_Dir n then Inl IsADirectoryError
                         else if is_Dir n \<and> \<not> is_Dir m then Inl NotADirectoryError
                         else if is_Dir m \<and> entries m \<noteq> [] then Inl FileExistsError
                         else Inr (put_entry (remove_entry r src) dst n))))"

definition samefile :: "node \<Rightarrow> path \<Rightarrow> path \<Rightarrow> bool" where
  "samefile r p q =
     (case follow r max_links p of
        Inl e \<Rightarrow> False
      | Inr (p', n) \<Rightarrow> (case follow r max_links q of Inl e \<Rightarrow> False | Inr (q', m) \<Rightarrow> p' = q'))"

text \<open>
  \<^verbatim>\<open>shutil.move\<close>: a destination that is a directory receives the source under the
  source's own name, and \<^verbatim>\<open>shutil.Error\<close> is raised when that name is taken; any other
  destination is renamed onto. The copy-and-unlink that \<^verbatim>\<open>shutil.move\<close> falls back
  to when \<^verbatim>\<open>os.rename\<close> raises is for another device; on one device it meets the
  error that \<^verbatim>\<open>os.rename\<close> met.
\<close>

definition shutil_move :: "node \<Rightarrow> path \<Rightarrow> path \<Rightarrow> error + node" where
  "shutil_move r src dst =
     (if os_path_isdir r dst then
        (if samefile r src dst then os_rename r src dst
         else if src = [] then Inl ShutilError
         else if os_path_exists r (dst @ [last src]) then Inl ShutilError
         else os_rename r src (dst @ [last src]))
      else os_rename r src dst)"

text \<open>\<^verbatim>\<open>str(path)\<close> of an absolute path.\<close>

definition path_str :: "path \<Rightarrow> string" where
  "path_str p = (if p = [] then ''/'' else concat (map (\<lambda>c. ''/'' @ c) p))"

text \<open>\<^verbatim>\<open>os.symlink(target, linkpath)\<close>: a new link, stamped with the current time.\<close>

definition os_symlink :: "rat \<Rightarrow> node \<Rightarrow> path \<Rightarrow> path \<Rightarrow> error + node" where
  "os_symlink now r target linkpath =
     (case lookup r linkpath of
        Inr n \<Rightarrow> Inl FileExistsError
      | Inl e \<Rightarrow>
          if e \<noteq> FileNotFoundError then Inl e
          else (case lookup r (butlast linkpath) of
                  Inl e' \<Rightarrow> Inl e'
                | Inr d \<Rightarrow>
                    if is_Dir d
                    then Inr (put_entry r linkpath
                           (Symlink target
                              \<lparr>st_size = length (path_str target), st_atime = now, st_mtime = now\<rparr>))
                    else Inl NotADirectoryError))"

fun set_times :: "node \<Rightarrow> rat \<Rightarrow> rat \<Rightarrow> node" where
  "set_times (File b st) a m = File b (st\<lparr>st_atime := a, st_mtime := m\<rparr>)"
| "set_times (Symlink t st) a m = Symlink t (st\<lparr>st_atime := a, st_mtime := m\<rparr>)"
| "set_times (Dir st es) a m = Dir (st\<lparr>st_atime := a, st_mtime := m\<rparr>) es"
| "set_times Denied a m = Denied"

text \<open>\<^verbatim>\<open>os.utime(path, (atime, mtime))\<close>, which follows a final link.\<close>

definition os_utime :: "node \<Rightarrow> path \<Rightarrow> rat \<Rightarrow> rat \<Rightarrow> error + node" where
  "os_utime r p a m =
     (case follow r max_links p of
        Inl e \<Rightarrow> Inl e
      | Inr (q, n) \<Rightarrow> Inr (put_entry r q (set_times n a m)))"

text \<open>\<^verbatim>\<open>os.utime(path, (atime, mtime), follow_symlinks=False)\<close>.\<close>

definition os_utime_nofollow :: "node \<Rightarrow> path \<Rightarrow> rat \<Rightarrow> rat \<Rightarrow> error + node" where
  "os_utime_nofollow r p a m =
     (case lookup r p of
        Inl e \<Rightarrow> Inl e
      | Inr n \<Rightarrow> Inr (put_entry r p (set_times n a m)))"

text \<open>\<^verbatim>\<open>Path.relative_to\<close>, which raises \<^verbatim>\<open>ValueError\<close> outside the base.\<close>

definition relative_to :: "path \<Rightarrow> path \<Rightarrow> path option" where
  "relative_to p base = (if prefix base p then Some (drop (length base) p) else None)"


section \<open>The validator\<close>

text \<open>The limits: module constants in revision 2, the dataclass \<^verbatim>\<open>GitHubLimits\<close> in revision 3.\<close>

definition MAX_GITHUB_FILESIZE_MB :: rat where
  "MAX_GITHUB_FILESIZE_MB = 100"

definition MAX_GITHUB_FILESIZE_WARNING_MB :: rat where
  "MAX_GITHUB_FILESIZE_WARNING_MB = 50"

definition MAX_GITHUB_FILES_PER_DIR :: int where
  "MAX_GITHUB_FILES_PER_DIR = 1000"

definition MAX_GITHUB_REPO_SIZE_GB :: rat where
  "MAX_GITHUB_REPO_SIZE_GB = 100"

definition MAX_GITHUB_REPO_WARNING_GB :: rat where
  "MAX_GITHUB_REPO_WARNING_GB = 5"

definition MAX_GITHUB_REPO_RECOMMENDED_GB :: rat where
  "MAX_GITHUB_REPO_RECOMMENDED_GB = 1"

record GitHubLimits =
  MAX_FILESIZE_MB :: rat
  WARNING_FILESIZE_MB :: rat
  MAX_FILES_PER_DIR :: int
  MAX_REPO_SIZE_GB :: rat
  WARNING_REPO_SIZE_GB :: rat
  RECOMMENDED_REPO_SIZE_GB :: rat

text \<open>
  The \<^verbatim>\<open>__init__\<close> that \<^verbatim>\<open>@dataclass\<close> generates for \<^verbatim>\<open>GitHubLimits\<close> stores its
  six arguments; the class has no \<^verbatim>\<open>__post_init__\<close>, so nothing in it raises.
\<close>

definition GitHubLimits_init ::
  "rat \<Rightarrow> rat \<Rightarrow> int \<Rightarrow> rat \<Rightarrow> rat \<Rightarrow> rat \<Rightarrow> error + GitHubLimits" where
  "GitHubLimits_init max_file warn_file max_files max_repo warn_repo rec_repo =
     Inr \<lparr>MAX_FILESIZE_MB = max_file, WARNING_FILESIZE_MB = warn_file,
          MAX_FILES_PER_DIR = max_files, MAX_REPO_SIZE_GB = max_repo,
          WARNING_REPO_SIZE_GB = warn_repo, RECOMMENDED_REPO_SIZE_GB = rec_repo\<rparr>"

definition GitHubLimits_default :: GitHubLimits where
  "GitHubLimits_default =
     \<lparr>MAX_FILESIZE_MB = 100, WARNING_FILESIZE_MB = 50, MAX_FILES_PER_DIR = 1000,
      MAX_REPO_SIZE_GB = 100, WARNING_REPO_SIZE_GB = 5, RECOMMENDED_REPO_SIZE_GB = 1\<rparr>"

record ValidationStats =
  total_files :: nat
  total_size_gb :: rat
  large_files :: "(path \<times> rat) list"
  warning_files :: "(path \<times> rat) list"
  large_dirs :: "(path \<times> nat) list"

definition ValidationStats_default :: ValidationStats where
  "ValidationStats_default =
     \<lparr>total_files = 0, total_size_gb = 0, large_files = [], warning_files = [],
      large_dirs = []\<rparr>"

text \<open>
  An entry of \<^verbatim>\<open>self.issues\<close>. The source appends formatted strings; the model keeps
  what each string is formatted from: the kind of message, the path relative to the
  repository and the number printed.
\<close>

datatype issue =
    FileError path rat
  | FileWarning path rat
  | Moved rat path path
  | DirWarning path nat
  | RepoError rat
  | RepoWarning rat

text \<open>
  The state of one \<^verbatim>\<open>GitHubValidator\<close> together with the world it acts on: the file
  system and the clock that stamps new entries. Revision 2 has no \<open>limits\<close>,
  \<open>stats\<close> or \<open>critical_dirs\<close> and leaves them alone. The log is not part of the
  state.
\<close>

record validator =
  repo_dir :: path
  backup_dir :: path
  auto_move :: bool
  issues :: "issue list"
  limits :: GitHubLimits
  stats :: ValidationStats
  critical_dirs :: "string list"
  fs :: node
  clock :: rat

definition GitHubValidator_init :: "node \<Rightarrow> rat \<Rightarrow> path \<Rightarrow> path \<Rightarrow> bool \<Rightarrow> validator" where
  "GitHubValidator_init world now repo backup move =
     \<lparr>repo_dir = repo, backup_dir = backup, auto_move = move, issues = [],
      limits = GitHubLimits_default, stats = ValidationStats_default,
      critical_dirs = [''src'', ''data''], fs = world, clock = now\<rparr>"

text \<open>
  A method either returns or raises; what it did to the validator and to the file
  system before raising stays done.
\<close>

datatype outcome = Returned validator | Raised error validator

fun state_of :: "outcome \<Rightarrow> validator" where
  "state_of (Returned v) = v"
| "state_of (Raised e v) = v"

fun raised :: "outcome \<Rightarrow> error option" where
  "raised (Returned v) = None"
| "raised (Raised e v) = Some e"

definition size_mb_of :: "stat_result \<Rightarrow> rat" where
  "size_mb_of st = of_nat (st_size st) / (1024 * 1024)"

text \<open>
  \<^verbatim>\<open>move_large_file\<close>, the same in both revisions (revision 3 computes \<open>size_mb\<close>
  before the move, revision 2 after it). Its \<^verbatim>\<open>except\<close> clause logs and raises again.
\<close>

definition move_large_file :: "validator \<Rightarrow> path \<Rightarrow> outcome" where
  "move_large_file v file_path =
     (case relative_to file_path (repo_dir v) of
        None \<Rightarrow> Raised ValueError v
      | Some rel_path \<Rightarrow>
          let backup_path = backup_dir v @ rel_path in
          (case mkdir_parents (clock v) (fs v) (butlast backup_path) of
             Inl e \<Rightarrow> Raised e v
           | Inr r1 \<Rightarrow>
               (case os_stat r1 file_path of
                  Inl e \<Rightarrow> Raised e (v\<lparr>fs := r1\<rparr>)
                | Inr stat \<Rightarrow>
                    (case shutil_move r1 file_path backup_path of
                       Inl e \<Rightarrow> Raised e (v\<lparr>fs := r1\<rparr>)
                     | Inr r2 \<Rightarrow>
                         (case os_symlink (clock v) r2 backup_path file_path of
                            Inl e \<Rightarrow> Raised e (v\<lparr>fs := r2\<rparr>)
                          | Inr r3 \<Rightarrow>
                              (case os_utime r3 backup_path (st_atime stat) (st_mtime stat) of
                                 Inl e \<Rightarrow> Raised e (v\<lparr>fs := r3\<rparr>)
                               | Inr r4 \<Rightarrow>
                                   (case os_utime_nofollow r4 file_path
                                           (st_atime stat) (st_mtime stat) of
                                      Inl e \<Rightarrow> Raised e (v\<lparr>fs := r4\<rparr>)
                                    | Inr r5 \<Rightarrow>
                                        Returned
                                          (v\<lparr>fs := r5,
                                             issues := issues v @
                                               [Moved (size_mb_of stat) rel_path
                                                  backup_path]\<rparr>))))))))"

definition handle_file_size_ver2 :: "validator \<Rightarrow> path \<Rightarrow> rat \<Rightarrow> outcome" where
  "handle_file_size_ver2 v path size_mb =
     (case relative_to path (repo_dir v) of
        None \<Rightarrow> Raised ValueError v
      | Some rel_path \<Rightarrow>
          if size_mb > MAX_GITHUB_FILESIZE_MB then
            (let v1 = v\<lparr>issues := issues v @ [FileError rel_path size_mb]\<rparr>
             in if auto_move v1 then move_large_file v1 path else Returned v1)
          else if size_mb > MAX_GITHUB_FILESIZE_WARNING_MB then
            Returned (v\<lparr>issues := issues v @ [FileWarning rel_path size_mb]\<rparr>)
          else Returned v)"

definition handle_file_size_ver3 :: "validator \<Rightarrow> path \<Rightarrow> rat \<Rightarrow> outcome" where
  "handle_file_size_ver3 v path size_mb =
     (case relative_to path (repo_dir v) of
        None \<Rightarrow> Raised ValueError v
      | Some rel_path \<Rightarrow>
          if size_mb > MAX_FILESIZE_MB (limits v) then
            (let v1 = v\<lparr>stats := (stats v)\<lparr>large_files :=
                           large_files (stats v) @ [(path, size_mb)]\<rparr>,
                         issues := issues v @ [FileError rel_path size_mb]\<rparr>
             in if auto_move v1 then move_large_file v1 path else Returned v1)
          else if size_mb > WARNING_FILESIZE_MB (limits v) then
            Returned (v\<lparr>stats := (stats v)\<lparr>warning_files :=
                           warning_files (stats v) @ [(path, size_mb)]\<rparr>,
                        issues := issues v @ [FileWarning rel_path size_mb]\<rparr>)
          else Returned v)"


subsection \<open>Loops\<close>

text \<open>
  A \<^verbatim>\<open>for\<close> loop whose body works on the validator: the body runs on each element in
  turn, and the first exception ends the loop.
\<close>

fun for_each :: "(validator \<Rightarrow> 'a \<Rightarrow> outcome) \<Rightarrow> validator \<Rightarrow> 'a list \<Rightarrow> outcome" where
  "for_each body v [] = Returned v"
| "for_each body v (x # xs) =
     (case body v x of
        Raised e v' \<Rightarrow> Raised e v'
      | Returned v' \<Rightarrow> for_each body v' xs)"

subsection \<open>The file-size pass\<close>

text \<open>
  The body of the loop of \<^verbatim>\<open>check_file_sizes\<close>, and the loop over the paths that
  \<^verbatim>\<open>rglob\<close> yields. The listing is the one of the tree as the loop starts; the tests
  and \<^verbatim>\<open>stat\<close> of each path read the tree as it is when the path is reached. (The
  generator of pathlib lists a directory when it reaches it; a relocation changes no
  directory below the repository as long as the backup directory lies outside it.)
\<close>

definition file_body_ver2 :: "validator \<Rightarrow> path \<Rightarrow> outcome" where
  "file_body_ver2 v p =
     (case is_file (fs v) p of
        Inl e \<Rightarrow> Raised e v
      | Inr False \<Rightarrow> Returned v
      | Inr True \<Rightarrow>
          (case is_symlink (fs v) p of
             Inl e \<Rightarrow> Raised e v
           | Inr True \<Rightarrow> Returned v
           | Inr False \<Rightarrow>
               (case os_stat (fs v) p of
                  Inl e \<Rightarrow> Raised e v
                | Inr st \<Rightarrow> handle_file_size_ver2 v p (size_mb_of st))))"

text \<open>Revision 2 logs whatever the loop raises and returns.\<close>

definition check_file_sizes_ver2 :: "validator \<Rightarrow> validator" where
  "check_file_sizes_ver2 v =
     state_of (for_each file_body_ver2 v (rglob (fs v) (repo_dir v)))"

text \<open>Revision 3 counts the files it handles, first below each critical directory.\<close>

definition file_body_ver3 :: "validator \<Rightarrow> path \<Rightarrow> outcome" where
  "file_body_ver3 v p =
     (case is_file (fs v) p of
        Inl e \<Rightarrow> Raised e v
      | Inr False \<Rightarrow> Returned v
      | Inr True \<Rightarrow>
          (case is_symlink (fs v) p of
             Inl e \<Rightarrow> Raised e v
           | Inr True \<Rightarrow> Returned v
           | Inr False \<Rightarrow>
               (let v0 = v\<lparr>stats := (stats v)\<lparr>total_files := total_files (stats v) + 1\<rparr>\<rparr>
                in (case os_stat (fs v0) p of
                      Inl e \<Rightarrow> Raised e v0
                    | Inr st \<Rightarrow> handle_file_size_ver3 v0 p (size_mb_of st)))))"

definition critical_body_ver3 :: "validator \<Rightarrow> string \<Rightarrow> outcome" where
  "critical_body_ver3 v subdir =
     (let dir_path = repo_dir v @ [subdir] in
      case path_exists (fs v) dir_path of
        Inl e \<Rightarrow> Raised e v
      | Inr False \<Rightarrow> Returned v
      | Inr True \<Rightarrow> for_each file_body_ver3 v (rglob (fs v) dir_path))"

text \<open>
  \<^verbatim>\<open>any(str(path).startswith(str(self.repo_dir / d)) for d in self.critical_dirs)\<close>:
  a comparison of the two strings.
\<close>

definition in_critical :: "validator \<Rightarrow> path \<Rightarrow> bool" where
  "in_critical v p =
     list_ex (\<lambda>d. prefix (path_str (repo_dir v @ [d])) (path_str p)) (critical_dirs v)"

definition remaining_body_ver3 :: "validator \<Rightarrow> path \<Rightarrow> outcome" where
  "remaining_body_ver3 v p =
     (case is_file (fs v) p of
        Inl e \<Rightarrow> Raised e v
      | Inr False \<Rightarrow> Returned v
      | Inr True \<Rightarrow>
          (case is_symlink (fs v) p of
             Inl e \<Rightarrow> Raised e v
           | Inr True \<Rightarrow> Returned v
           | Inr False \<Rightarrow>
               if in_critical v p then Returned v
               else
                 (let v0 = v\<lparr>stats := (stats v)\<lparr>total_files := total_files (stats v) + 1\<rparr>\<rparr>
                  in (case os_stat (fs v0) p of
                        Inl e \<Rightarrow> Raised e v0
                      | Inr st \<Rightarrow> handle_file_size_ver3 v0 p (size_mb_of st)))))"

text \<open>Revision 3 logs whatever is raised and raises it again.\<close>

definition check_file_sizes_ver3 :: "validator \<Rightarrow> outcome" where
  "check_file_sizes_ver3 v =
     (case for_each critical_body_ver3 v (critical_dirs v) of
        Raised e v' \<Rightarrow> Raised e v'
      | Returned v' \<Rightarrow> for_each remaining_body_ver3 v' (rglob (fs v') (repo_dir v')))"

subsection \<open>The directory pass\<close>

definition dir_body_ver2 :: "validator \<Rightarrow> path \<Rightarrow> outcome" where
  "dir_body_ver2 v p =
     (case is_dir (fs v) p of
        Inl e \<Rightarrow> Raised e v
      | Inr False \<Rightarrow> Returned v
      | Inr True \<Rightarrow>
          (let files = glob_star (fs v) p in
           if int (length files) > MAX_GITHUB_FILES_PER_DIR then
             (case relative_to p (repo_dir v) of
                None \<Rightarrow> Raised ValueError v
              | Some rel_path \<Rightarrow>
                  Returned (v\<lparr>issues := issues v @ [DirWarning rel_path (length files)]\<rparr>))
           else Returned v))"

definition check_dir_file_counts_ver2 :: "validator \<Rightarrow> validator" where
  "check_dir_file_counts_ver2 v =
     state_of (for_each dir_body_ver2 v (rglob (fs v) (repo_dir v)))"

definition dir_body_ver3 :: "validator \<Rightarrow> path \<Rightarrow> outcome" where
  "dir_body_ver3 v p =
     (case is_dir (fs v) p of
        Inl e \<Rightarrow> Raised e v
      | Inr False \<Rightarrow> Returned v
      | Inr True \<Rightarrow>
          (let files = glob_star (fs v) p; count = length files in
           if int count > MAX_FILES_PER_DIR (limits v) then
             (case relative_to p (repo_dir v) of
                None \<Rightarrow> Raised ValueError v
              | Some rel_path \<Rightarrow>
                  Returned
                    (v\<lparr>stats := (stats v)\<lparr>large_dirs := large_dirs (stats v) @ [(p, count)]\<rparr>,
                       issues := issues v @ [DirWarning rel_path count]\<rparr>))
           else Returned v))"

definition check_dir_file_counts_ver3 :: "validator \<Rightarrow> outcome" where
  "check_dir_file_counts_ver3 v = for_each dir_body_ver3 v (rglob (fs v) (repo_dir v))"

subsection \<open>The size of the whole repository\<close>

text \<open>
  The generator that \<^verbatim>\<open>sum\<close> consumes in \<^verbatim>\<open>check_repo_size\<close>: the sizes of the
  entries that are files and not links, in listing order.
\<close>

fun file_sizes :: "node \<Rightarrow> path list \<Rightarrow> error + nat list" where
  "file_sizes r [] = Inr []"
| "file_sizes r (f # fs') =
     (case is_file r f of
        Inl e \<Rightarrow> Inl e
      | Inr False \<Rightarrow> file_sizes r fs'
      | Inr True \<Rightarrow>
          (case is_symlink r f of
             Inl e \<Rightarrow> Inl e
           | Inr True \<Rightarrow> file_sizes r fs'
           | Inr False \<Rightarrow>
               (case os_stat r f of
                  Inl e \<Rightarrow> Inl e
                | Inr st \<Rightarrow>
                    (case file_sizes r fs' of
                       Inl e \<Rightarrow> Inl e
                     | Inr ns \<Rightarrow> Inr (st_size st # ns)))))"

definition total_bytes :: "node \<Rightarrow> path \<Rightarrow> error + nat" where
  "total_bytes r d =
     (case file_sizes r (rglob r d) of Inl e \<Rightarrow> Inl e | Inr ns \<Rightarrow> Inr (sum_list ns))"

definition check_repo_size_ver2 :: "validator \<Rightarrow> validator" where
  "check_repo_size_ver2 v =
     (case total_bytes (fs v) (repo_dir v) of
        Inl e \<Rightarrow> v
      | Inr n \<Rightarrow>
          (let total_size_gb = of_nat n / (1024 ^ 3) in
           if total_size_gb > MAX_GITHUB_REPO_SIZE_GB then
             v\<lparr>issues := issues v @ [RepoError total_size_gb]\<rparr>
           else if total_size_gb > MAX_GITHUB_REPO_WARNING_GB then
             v\<lparr>issues := issues v @ [RepoWarning total_size_gb]\<rparr>
           else v))"

definition check_repo_size_ver3 :: "validator \<Rightarrow> outcome" where
  "check_repo_size_ver3 v =
     (case total_bytes (fs v) (repo_dir v) of
        Inl e \<Rightarrow> Raised e v
      | Inr n \<Rightarrow>
          (let v1 = v\<lparr>stats := (stats v)\<lparr>total_size_gb := of_nat n / (1024 ^ 3)\<rparr>\<rparr> in
           if total_size_gb (stats v1) > MAX_REPO_SIZE_GB (limits v1) then
             Returned (v1\<lparr>issues := issues v1 @ [RepoError (total_size_gb (stats v1))]\<rparr>)
           else if total_size_gb (stats v1) > WARNING_REPO_SIZE_GB (limits v1) then
             Returned (v1\<lparr>issues := issues v1 @ [RepoWarning (total_size_gb (stats v1))]\<rparr>)
           else Returned v1))"

subsection \<open>One run\<close>

definition validate_ver2 :: "validator \<Rightarrow> validator" where
  "validate_ver2 v = check_repo_size_ver2 (check_dir_file_counts_ver2 (check_file_sizes_ver2 v))"

definition validate_ver3 :: "validator \<Rightarrow> outcome" where
  "validate_ver3 v =
     (case check_file_sizes_ver3 v of
        Raised e v1 \<Rightarrow> Raised e v1
      | Returned v1 \<Rightarrow>
          (case check_dir_file_counts_ver3 v1 of
             Raised e v2 \<Rightarrow> Raised e v2
           | Returned v2 \<Rightarrow> check_repo_size_ver3 v2))"


section \<open>Reading the results off\<close>

text \<open>What a call appended to \<^verbatim>\<open>self.issues\<close>, and which entries report a file size.\<close>

definition reported_since :: "validator \<Rightarrow> validator \<Rightarrow> issue list" where
  "reported_since v v' = drop (length (issues v)) (issues v')"

fun is_size_report :: "issue \<Rightarrow> bool" where
  "is_size_report (FileError p s) = True"
| "is_size_report (FileWarning p s) = True"
| "is_size_report i = False"

text \<open>Concrete inputs for the examples.\<close>

definition stat_of_size :: "nat \<Rightarrow> stat_result" where
  "stat_of_size n = \<lparr>st_size = n, st_atime = 0, st_mtime = 0\<rparr>"

definition plain_validator :: validator where
  "plain_validator =
     GitHubValidator_init (Dir (stat_of_size 4096) []) 0 [''repo''] [''backup''] False"

text \<open>
  \<open>frame v v'\<close>: nothing but the issues and the statistics differ between two states
  of a validator. \<open>eqc v w\<close>: two validators differ in their clocks at most.
\<close>

definition frame :: "validator \<Rightarrow> validator \<Rightarrow> bool" where
  "frame v v' \<longleftrightarrow>
     fs v' = fs v \<and> repo_dir v' = repo_dir v \<and> backup_dir v' = backup_dir v \<and>
     auto_move v' = auto_move v \<and> limits v' = limits v \<and>
     critical_dirs v' = critical_dirs v \<and> clock v' = clock v"

definition eqc :: "validator \<Rightarrow> validator \<Rightarrow> bool" where
  "eqc v w \<longleftrightarrow>
     repo_dir w = repo_dir v \<and> backup_dir w = backup_dir v \<and> auto_move w = auto_move v \<and>
     issues w = issues v \<and> limits w = limits v \<and> stats w = stats v \<and>
     critical_dirs w = critical_dirs v \<and> fs w = fs v"

fun rel_outcome :: "outcome \<Rightarrow> outcome \<Rightarrow> bool" where
  "rel_outcome (Returned v) (Returned w) = eqc v w"
| "rel_outcome (Raised e v) (Raised e' w) = (e = e' \<and> eqc v w)"
| "rel_outcome (Returned v) (Raised e' w) = False"
| "rel_outcome (Raised e v) (Returned w) = False"

text \<open>
  The tree after \<^verbatim>\<open>/repo/a.bin\<close> has been relocated to \<^verbatim>\<open>/backup/a.bin\<close>.
\<close>

definition relocated_world :: node where
  "relocated_world =
     Dir (stat_of_size 4096)
       [(''repo'', Dir (stat_of_size 4096)
          [(''a.bin'', Symlink [''backup'', ''a.bin'']
              \<lparr>st_size = 13, st_atime = 11, st_mtime = 7\<rparr>)]),
        (''backup'', Dir (stat_of_size 4096)
          [(''a.bin'', File ''x'' \<lparr>st_size = 157286400, st_atime = 11, st_mtime = 7\<rparr>)])]"

definition relocated_validator :: validator where
  "relocated_validator = GitHubValidator_init relocated_world 5 [''repo''] [''backup''] True"

text \<open>
  A repository that holds one file of 150 MiB, \<^verbatim>\<open>/repo/database.bin\<close>, and neither
  \<^verbatim>\<open>src\<close> nor \<^verbatim>\<open>data\<close>.
\<close>

definition database_world :: node where
  "database_world =
     Dir (stat_of_size 4096)
       [(''repo'', Dir (stat_of_size 4096)
          [(''database.bin'', File ''x'' (stat_of_size 157286400))])]"

definition database_validator :: validator where
  "database_validator = GitHubValidator_init database_world 0 [''repo''] [''backup''] False"

fun is_File :: "node \<Rightarrow> bool" where
  "is_File (File b st) = True"
| "is_File n = False"

text \<open>
  A directory of \<open>n\<close> small files, as the repository directory itself and as a
  directory below it.
\<close>

definition many_files :: "nat \<Rightarrow> (string \<times> node) list" where
  "many_files n = map (\<lambda>i. (''f'' @ replicate i CHR ''x'', File '''' (stat_of_size 1))) [0..<n]"

definition crowded_root :: node where
  "crowded_root = Dir (stat_of_size 4096) [(''repo'', Dir (stat_of_size 4096) (many_files 1001))]"

definition crowded_subdir :: node where
  "crowded_subdir =
     Dir (stat_of_size 4096)
       [(''repo'', Dir (stat_of_size 4096) [(''d'', Dir (stat_of_size 4096) (many_files 1001))])]"

text \<open>
  A repository with an entry that cannot be read between two files, and a validator whose
  repository directory does not exist.
\<close>

definition denied_world :: node where
  "denied_world =
     Dir (stat_of_size 4096)
       [(''repo'', Dir (stat_of_size 4096)
          [(''a.bin'', File ''a'' (stat_of_size 62914560)),
           (''secret'', Denied),
           (''big.bin'', File ''b'' (stat_of_size 157286400))])]"

definition denied_validator :: validator where
  "denied_validator = GitHubValidator_init denied_world 0 [''repo''] [''backup''] False"

definition lost_validator :: validator where
  "lost_validator = GitHubValidator_init database_world 0 [''nowhere''] [''backup''] False"

definition denied_warned_ver2 :: validator where
  "denied_warned_ver2 = denied_validator\<lparr>issues := [FileWarning [''a.bin''] 60]\<rparr>"

definition denied_warned_ver3 :: validator where
  "denied_warned_ver3 =
     denied_validator
       \<lparr>issues := [FileWarning [''a.bin''] 60],
        stats := ValidationStats_default
          \<lparr>total_files := 1, warning_files := [([''repo'', ''a.bin''], 60)]\<rparr>\<rparr>"

text \<open>
  \<^verbatim>\<open>open(path, 'rb').read()\<close>: what a reader of a path gets, a final link followed.
\<close>

definition read_bytes :: "node \<Rightarrow> path \<Rightarrow> error + string" where
  "read_bytes r p =
     (case follow r max_links p of
        Inl e \<Rightarrow> Inl e
      | Inr (q, File b st) \<Rightarrow> Inr b
      | Inr (q, Dir st es) \<Rightarrow> Inl IsADirectoryError
      | Inr (q, n) \<Rightarrow> Inl PermissionError)"

text \<open>
  Three trees for the relocation of \<^verbatim>\<open>/repo/a.bin\<close>: one without a backup directory,
  one where \<^verbatim>\<open>/backup/a.bin\<close> is already a directory, and one where that directory
  already holds an \<^verbatim>\<open>a.bin\<close>; each with the state the relocation leaves.
\<close>

definition fresh_world :: node where
  "fresh_world =
     Dir (stat_of_size 4096)
       [(''repo'', Dir (stat_of_size 4096)
          [(''a.bin'', File ''x'' \<lparr>st_size = 157286400, st_atime = 11, st_mtime = 7\<rparr>)])]"

definition fresh_validator :: validator where
  "fresh_validator = GitHubValidator_init fresh_world 5 [''repo''] [''backup''] True"

definition fresh_relocated :: validator where
  "fresh_relocated =
     fresh_validator
       \<lparr>fs := Dir (stat_of_size 4096)
          [(''repo'', Dir (stat_of_size 4096)
             [(''a.bin'', Symlink [''backup'', ''a.bin'']
                 \<lparr>st_size = 13, st_atime = 11, st_mtime = 7\<rparr>)]),
           (''backup'', Dir \<lparr>st_size = 4096, st_atime = 5, st_mtime = 5\<rparr>
             [(''a.bin'', File ''x'' \<lparr>st_size = 157286400, st_atime = 11, st_mtime = 7\<rparr>)])],
        issues := [Moved 150 [''a.bin''] [''backup'', ''a.bin'']]\<rparr>"

definition taken_world :: node where
  "taken_world =
     Dir (stat_of_size 4096)
       [(''repo'', Dir (stat_of_size 4096)
          [(''a.bin'', File ''x'' \<lparr>st_size = 157286400, st_atime = 11, st_mtime = 7\<rparr>)]),
        (''backup'', Dir (stat_of_size 4096) [(''a.bin'', Dir (stat_of_size 4096) [])])]"

definition taken_validator :: validator where
  "taken_validator = GitHubValidator_init taken_world 5 [''repo''] [''backup''] True"

definition taken_relocated :: validator where
  "taken_relocated =
     taken_validator
       \<lparr>fs := Dir (stat_of_size 4096)
          [(''repo'', Dir (stat_of_size 4096)
             [(''a.bin'', Symlink [''backup'', ''a.bin'']
                 \<lparr>st_size = 13, st_atime = 11, st_mtime = 7\<rparr>)]),
           (''backup'', Dir (stat_of_size 4096)
             [(''a.bin'', Dir \<lparr>st_size = 4096, st_atime = 11, st_mtime = 7\<rparr>
                [(''a.bin'',
                  File ''x'' \<lparr>st_size = 157286400, st_atime = 11, st_mtime = 7\<rparr>)])])],
        issues := [Moved 150 [''a.bin''] [''backup'', ''a.bin'']]\<rparr>"

definition blocked_world :: node where
  "blocked_world =
     Dir (stat_of_size 4096)
       [(''repo'', Dir (stat_of_size 4096)
          [(''a.bin'', File ''x'' \<lparr>st_size = 157286400, st_atime = 11, st_mtime = 7\<rparr>),
           (''b.bin'', File ''y'' (stat_of_size 157286400))]),
        (''backup'', Dir (stat_of_size 4096)
          [(''a.bin'', Dir (stat_of_size 4096) [(''a.bin'', File ''old'' (stat_of_size 1))])])]"

definition blocked_validator :: validator where
  "blocked_validator = GitHubValidator_init blocked_world 5 [''repo''] [''backup''] True"

definition blocked_reported :: validator where
  "blocked_reported = blocked_validator\<lparr>issues := [FileError [''a.bin''] 150]\<rparr>"

section \<open>Size classification\<close>

lemma relative_to_append: "relative_to (base @ rel) base = Some rel"
  by (simp add: relative_to_def)

lemma move_large_file_issues:
  "\<exists>extra. issues (state_of (move_large_file v p)) = issues v @ extra \<and>
     filter is_size_report extra = []"
  by (simp add: move_large_file_def Let_def split: option.split sum.split)

lemma size_mb_gt: "size_mb_of st > m \<longleftrightarrow> of_nat (st_size st) > m * 1048576"
  by (simp add: size_mb_of_def field_simps)

lemma size_mb_gt_nat:
  "size_mb_of st > of_nat k \<longleftrightarrow> st_size st > k * 1048576"
proof -
  have "(of_nat (st_size st) :: rat) > of_nat (k * 1048576) \<longleftrightarrow> st_size st > k * 1048576"
    by (rule of_nat_less_iff)
  then show ?thesis by (simp add: size_mb_gt)
qed

lemma reported_since_append [simp]: "reported_since v (w\<lparr>issues := issues v @ xs\<rparr>) = xs"
  by (simp add: reported_since_def)

lemma reported_since_self [simp]: "reported_since v v = []"
  by (simp add: reported_since_def)

lemma move_after_report:
  "issues v1 = issues v @ [i] \<Longrightarrow>
   filter is_size_report (reported_since v (state_of (move_large_file v1 p))) =
   filter is_size_report [i]"
proof -
  assume a: "issues v1 = issues v @ [i]"
  obtain extra where e: "issues (state_of (move_large_file v1 p)) = issues v1 @ extra"
    and f: "filter is_size_report extra = []"
    using move_large_file_issues by blast
  show ?thesis by (simp add: reported_since_def e a f)
qed

lemma handle_file_size_ver2_reports:
  "filter is_size_report
     (reported_since v (state_of (handle_file_size_ver2 v (repo_dir v @ rel) mb))) =
   (if mb > MAX_GITHUB_FILESIZE_MB then [FileError rel mb]
    else if mb > MAX_GITHUB_FILESIZE_WARNING_MB then [FileWarning rel mb]
    else [])"
  by (simp add: handle_file_size_ver2_def relative_to_append Let_def move_after_report)

lemma handle_file_size_ver3_reports:
  "filter is_size_report
     (reported_since v (state_of (handle_file_size_ver3 v (repo_dir v @ rel) mb))) =
   (if mb > MAX_FILESIZE_MB (limits v) then [FileError rel mb]
    else if mb > WARNING_FILESIZE_MB (limits v) then [FileWarning rel mb]
    else [])"
  by (simp add: handle_file_size_ver3_def relative_to_append Let_def move_after_report)

text \<open>
  C1, as the code has it. A file of \<open>s\<close> bytes at \<open>rel\<close> below the repository is
  reported by \<^verbatim>\<open>_handle_file_size\<close> in exactly one of three ways: one \<open>FileError\<close>
  (a size violation) when \<open>s\<close> exceeds the maximum, one \<open>FileWarning\<close> when it does not
  but exceeds the warning threshold, nothing otherwise; never both. Both comparisons are
  strict, so \<open>s\<close> equal to the maximum is a warning and \<open>s\<close> equal to the warning
  threshold is normal. Revision 2 has the maximum at \<open>100 \<sqdot> 2\<^sup>2\<^sup>0\<close> bytes and the warning
  threshold at \<open>50 \<sqdot> 2\<^sup>2\<^sup>0\<close>; revision 3 reads both from its limits. This holds with and
  without automatic relocation, and whether or not the relocation succeeds.
\<close>

theorem handle_file_size_trichotomy:
  "filter is_size_report
     (reported_since v (state_of (handle_file_size_ver2 v (repo_dir v @ rel) (size_mb_of st)))) =
   (if st_size st > 104857600 then [FileError rel (size_mb_of st)]
    else if st_size st > 52428800 then [FileWarning rel (size_mb_of st)]
    else []) \<and>
   filter is_size_report
     (reported_since v (state_of (handle_file_size_ver3 v (repo_dir v @ rel) (size_mb_of st)))) =
   (if of_nat (st_size st) > MAX_FILESIZE_MB (limits v) * 1048576
    then [FileError rel (size_mb_of st)]
    else if of_nat (st_size st) > WARNING_FILESIZE_MB (limits v) * 1048576
    then [FileWarning rel (size_mb_of st)]
    else [])"
proof -
  have a: "size_mb_of st > MAX_GITHUB_FILESIZE_MB \<longleftrightarrow> st_size st > 104857600"
    using size_mb_gt_nat [of 100 st] by (simp add: MAX_GITHUB_FILESIZE_MB_def)
  have b: "size_mb_of st > MAX_GITHUB_FILESIZE_WARNING_MB \<longleftrightarrow> st_size st > 52428800"
    using size_mb_gt_nat [of 50 st] by (simp add: MAX_GITHUB_FILESIZE_WARNING_MB_def)
  have c: "filter is_size_report
     (reported_since v (state_of (handle_file_size_ver2 v (repo_dir v @ rel) (size_mb_of st)))) =
   (if st_size st > 104857600 then [FileError rel (size_mb_of st)]
    else if st_size st > 52428800 then [FileWarning rel (size_mb_of st)]
    else [])"
    by (simp add: handle_file_size_ver2_reports a b)
  have d: "filter is_size_report
     (reported_since v (state_of (handle_file_size_ver3 v (repo_dir v @ rel) (size_mb_of st)))) =
   (if of_nat (st_size st) > MAX_FILESIZE_MB (limits v) * 1048576
    then [FileError rel (size_mb_of st)]
    else if of_nat (st_size st) > WARNING_FILESIZE_MB (limits v) * 1048576
    then [FileWarning rel (size_mb_of st)]
    else [])"
    by (simp add: handle_file_size_ver3_reports size_mb_gt)
  from c d show ?thesis by (rule conjI)
qed

text \<open>
  C1, the boundary the claim gets wrong: a file of exactly 100 MiB, the maximum, under
  \<^verbatim>\<open>/repo\<close> is reported as a warning by both revisions, not as a violation.
\<close>

theorem size_equal_to_max_is_a_warning:
  "filter is_size_report
     (reported_since plain_validator
        (state_of (handle_file_size_ver2 plain_validator [''repo'', ''big.bin'']
           (size_mb_of (stat_of_size 104857600))))) =
   [FileWarning [''big.bin''] 100] \<and>
   filter is_size_report
     (reported_since plain_validator
        (state_of (handle_file_size_ver3 plain_validator [''repo'', ''big.bin'']
           (size_mb_of (stat_of_size 104857600))))) =
   [FileWarning [''big.bin''] 100]"
  by (simp add: handle_file_size_ver2_def handle_file_size_ver3_def plain_validator_def
      GitHubValidator_init_def relative_to_def size_mb_of_def stat_of_size_def
      MAX_GITHUB_FILESIZE_MB_def MAX_GITHUB_FILESIZE_WARNING_MB_def GitHubLimits_default_def
      reported_since_def)

section \<open>Constructing the limits\<close>

text \<open>
  C3, as the code has it. Constructing \<^verbatim>\<open>GitHubLimits\<close> never fails: whatever the six
  values are, the result is the policy that holds exactly them. Nothing is compared and
  nothing is required to be positive. A validator is always constructed with the default
  limits, whose warning thresholds lie below their maxima and whose values are positive.
\<close>

theorem GitHubLimits_init_total:
  "GitHubLimits_init max_file warn_file max_files max_repo warn_repo rec_repo =
     Inr \<lparr>MAX_FILESIZE_MB = max_file, WARNING_FILESIZE_MB = warn_file,
          MAX_FILES_PER_DIR = max_files, MAX_REPO_SIZE_GB = max_repo,
          WARNING_REPO_SIZE_GB = warn_repo, RECOMMENDED_REPO_SIZE_GB = rec_repo\<rparr> \<and>
   limits (GitHubValidator_init world now repo backup move) = GitHubLimits_default \<and>
   WARNING_FILESIZE_MB GitHubLimits_default \<le> MAX_FILESIZE_MB GitHubLimits_default \<and>
   WARNING_REPO_SIZE_GB GitHubLimits_default \<le> MAX_REPO_SIZE_GB GitHubLimits_default \<and>
   0 < WARNING_FILESIZE_MB GitHubLimits_default \<and>
   0 < MAX_FILES_PER_DIR GitHubLimits_default \<and>
   0 < WARNING_REPO_SIZE_GB GitHubLimits_default \<and>
   0 < RECOMMENDED_REPO_SIZE_GB GitHubLimits_default"
  by (simp add: GitHubLimits_init_def GitHubValidator_init_def GitHubLimits_default_def)

text \<open>
  C3, where the claim fails: a warning threshold of 100 MB above a maximum of 50 MB, and
  a maximum of \<open>-1\<close> entries in a directory, are accepted.
\<close>

theorem GitHubLimits_init_accepts_warn_above_max:
  "GitHubLimits_init 50 100 (- 1) 100 5 1 =
     Inr \<lparr>MAX_FILESIZE_MB = 50, WARNING_FILESIZE_MB = 100,
          MAX_FILES_PER_DIR = - 1, MAX_REPO_SIZE_GB = 100,
          WARNING_REPO_SIZE_GB = 5, RECOMMENDED_REPO_SIZE_GB = 1\<rparr>"
  by (simp add: GitHubLimits_init_def)

section \<open>A run without relocation\<close>

lemma frame_refl [simp]: "frame v v"
  by (simp add: frame_def)

lemma frame_trans: "frame a b \<Longrightarrow> frame b c \<Longrightarrow> frame a c"
  by (simp add: frame_def)

lemma for_each_frame:
  assumes step: "\<And>v x. \<not> auto_move v \<Longrightarrow> frame v (state_of (body v x))"
  shows "\<not> auto_move v \<Longrightarrow> frame v (state_of (for_each body v xs))"
proof (induction xs arbitrary: v)
  case Nil
  then show ?case by simp
next
  case (Cons x xs)
  from Cons.prems have f: "frame v (state_of (body v x))" by (rule step)
  show ?case
  proof (cases "body v x")
    case (Raised e v')
    with f show ?thesis by simp
  next
    case (Returned v')
    with f have f2: "frame v v'" by simp
    with Cons.prems have "\<not> auto_move v'" by (simp add: frame_def)
    then have "frame v' (state_of (for_each body v' xs))" by (rule Cons.IH)
    with f2 have "frame v (state_of (for_each body v' xs))" by (rule frame_trans)
    with Returned show ?thesis by simp
  qed
qed

lemma rel_outcome_Returned:
  "rel_outcome (Returned v) x \<Longrightarrow> \<exists>w. x = Returned w \<and> eqc v w"
  by (cases x) auto

lemma rel_outcome_Raised:
  "rel_outcome (Raised e v) x \<Longrightarrow> \<exists>w. x = Raised e w \<and> eqc v w"
  by (cases x) auto

lemma for_each_eqc:
  assumes step: "\<And>v x. \<not> auto_move v \<Longrightarrow> frame v (state_of (body v x))"
    and rel: "\<And>v w x. eqc v w \<Longrightarrow> \<not> auto_move v \<Longrightarrow> rel_outcome (body v x) (body w x)"
  shows "eqc v w \<Longrightarrow> \<not> auto_move v \<Longrightarrow>
         rel_outcome (for_each body v xs) (for_each body w xs)"
proof (induction xs arbitrary: v w)
  case Nil
  then show ?case by simp
next
  case (Cons x xs)
  from Cons.prems have r: "rel_outcome (body v x) (body w x)" by (rule rel)
  from Cons.prems(2) have f: "frame v (state_of (body v x))" by (rule step)
  show ?case
  proof (cases "body v x")
    case (Raised e v')
    with r obtain w' where "body w x = Raised e w'" and "eqc v' w'"
      by (auto dest: rel_outcome_Raised)
    with Raised show ?thesis by simp
  next
    case (Returned v')
    with r obtain w' where w: "body w x = Returned w'" and e: "eqc v' w'"
      by (auto dest: rel_outcome_Returned)
    from f Returned Cons.prems(2) have "\<not> auto_move v'" by (simp add: frame_def)
    with e have "rel_outcome (for_each body v' xs) (for_each body w' xs)" by (rule Cons.IH)
    with Returned w show ?thesis by simp
  qed
qed

lemma handle_ver2_frame:
  "\<not> auto_move v \<Longrightarrow> frame v (state_of (handle_file_size_ver2 v p mb))"
  by (simp add: handle_file_size_ver2_def frame_def Let_def split: option.split)

lemma handle_ver3_frame:
  "\<not> auto_move v \<Longrightarrow> frame v (state_of (handle_file_size_ver3 v p mb))"
  by (simp add: handle_file_size_ver3_def frame_def Let_def split: option.split)

lemma handle_ver2_eqc:
  "eqc v w \<Longrightarrow> \<not> auto_move v \<Longrightarrow>
   rel_outcome (handle_file_size_ver2 v p mb) (handle_file_size_ver2 w p mb)"
  by (simp add: handle_file_size_ver2_def eqc_def Let_def split: option.split)

lemma handle_ver3_eqc:
  "eqc v w \<Longrightarrow> \<not> auto_move v \<Longrightarrow>
   rel_outcome (handle_file_size_ver3 v p mb) (handle_file_size_ver3 w p mb)"
  by (simp add: handle_file_size_ver3_def eqc_def Let_def split: option.split)

lemma eqc_fs: "eqc v w \<Longrightarrow> fs w = fs v"
  by (simp add: eqc_def)

lemma eqc_refl [simp]: "eqc v v"
  by (simp add: eqc_def)

lemma file_body_ver2_frame:
  "\<not> auto_move v \<Longrightarrow> frame v (state_of (file_body_ver2 v p))"
  by (simp add: file_body_ver2_def handle_ver2_frame split: sum.split bool.split)

lemma file_body_ver2_eqc:
  "eqc v w \<Longrightarrow> \<not> auto_move v \<Longrightarrow> rel_outcome (file_body_ver2 v p) (file_body_ver2 w p)"
  by (simp add: file_body_ver2_def handle_ver2_eqc eqc_fs split: sum.split bool.split)

lemma frame_stats_l [simp]: "frame (v\<lparr>stats := s\<rparr>) v' = frame v v'"
  by (simp add: frame_def)

lemma frame_stats_r [simp]: "frame v (v'\<lparr>stats := s\<rparr>) = frame v v'"
  by (simp add: frame_def)

lemma frame_issues_r [simp]: "frame v (v'\<lparr>issues := s\<rparr>) = frame v v'"
  by (simp add: frame_def)

lemma eqc_stats: "eqc v w \<Longrightarrow> eqc (v\<lparr>stats := f (stats v)\<rparr>) (w\<lparr>stats := f (stats w)\<rparr>)"
  by (simp add: eqc_def)

lemma file_body_ver3_frame:
  "\<not> auto_move v \<Longrightarrow> frame v (state_of (file_body_ver3 v p))"
  using handle_ver3_frame [of "v\<lparr>stats := (stats v)\<lparr>total_files := total_files (stats v) + 1\<rparr>\<rparr>" p]
  by (simp add: file_body_ver3_def Let_def split: sum.split bool.split)

lemma file_body_ver3_eqc:
  "eqc v w \<Longrightarrow> \<not> auto_move v \<Longrightarrow> rel_outcome (file_body_ver3 v p) (file_body_ver3 w p)"
  using handle_ver3_eqc [of "v\<lparr>stats := (stats v)\<lparr>total_files := total_files (stats v) + 1\<rparr>\<rparr>"
     "w\<lparr>stats := (stats w)\<lparr>total_files := total_files (stats w) + 1\<rparr>\<rparr>" p]
  by (simp add: file_body_ver3_def Let_def eqc_def split: sum.split bool.split)


lemma in_critical_eqc: "eqc v w \<Longrightarrow> in_critical w p = in_critical v p"
  by (simp add: in_critical_def eqc_def)

lemma remaining_body_ver3_frame:
  "\<not> auto_move v \<Longrightarrow> frame v (state_of (remaining_body_ver3 v p))"
  using handle_ver3_frame [of "v\<lparr>stats := (stats v)\<lparr>total_files := total_files (stats v) + 1\<rparr>\<rparr>" p]
  by (simp add: remaining_body_ver3_def Let_def split: sum.split bool.split)

lemma remaining_body_ver3_eqc:
  "eqc v w \<Longrightarrow> \<not> auto_move v \<Longrightarrow>
   rel_outcome (remaining_body_ver3 v p) (remaining_body_ver3 w p)"
  using handle_ver3_eqc [of "v\<lparr>stats := (stats v)\<lparr>total_files := total_files (stats v) + 1\<rparr>\<rparr>"
     "w\<lparr>stats := (stats w)\<lparr>total_files := total_files (stats w) + 1\<rparr>\<rparr>" p]
    in_critical_eqc [of v w p]
  by (simp add: remaining_body_ver3_def Let_def eqc_def split: sum.split bool.split)

lemma critical_body_ver3_frame:
  "\<not> auto_move v \<Longrightarrow> frame v (state_of (critical_body_ver3 v d))"
  using for_each_frame [of file_body_ver3 v, OF file_body_ver3_frame]
  by (simp add: critical_body_ver3_def Let_def split: sum.split bool.split)

lemma critical_body_ver3_eqc:
  "eqc v w \<Longrightarrow> \<not> auto_move v \<Longrightarrow>
   rel_outcome (critical_body_ver3 v d) (critical_body_ver3 w d)"
  using for_each_eqc [of file_body_ver3 v w, OF file_body_ver3_frame file_body_ver3_eqc]
  by (simp add: critical_body_ver3_def Let_def eqc_def split: sum.split bool.split)

lemma dir_body_ver2_frame: "frame v (state_of (dir_body_ver2 v p))"
  by (simp add: dir_body_ver2_def Let_def split: sum.split bool.split option.split)

lemma dir_body_ver3_frame: "frame v (state_of (dir_body_ver3 v p))"
  by (simp add: dir_body_ver3_def Let_def split: sum.split bool.split option.split)

lemma dir_body_ver2_eqc:
  "eqc v w \<Longrightarrow> rel_outcome (dir_body_ver2 v p) (dir_body_ver2 w p)"
  by (simp add: dir_body_ver2_def Let_def eqc_def split: sum.split bool.split option.split)

lemma dir_body_ver3_eqc:
  "eqc v w \<Longrightarrow> rel_outcome (dir_body_ver3 v p) (dir_body_ver3 w p)"
  by (simp add: dir_body_ver3_def Let_def eqc_def split: sum.split bool.split option.split)


lemma rel_outcome_state: "rel_outcome a b \<Longrightarrow> eqc (state_of a) (state_of b)"
  by (cases a; cases b) auto

lemma rel_outcome_raised: "rel_outcome a b \<Longrightarrow> raised a = raised b"
  by (cases a; cases b) auto

lemma eqc_lists: "eqc v w \<Longrightarrow> rglob (fs w) (repo_dir w) = rglob (fs v) (repo_dir v)"
  by (simp add: eqc_def)

lemma check_file_sizes_ver2_frame:
  "\<not> auto_move v \<Longrightarrow> frame v (check_file_sizes_ver2 v)"
  unfolding check_file_sizes_ver2_def
  by (rule for_each_frame [OF file_body_ver2_frame])

lemma check_file_sizes_ver2_eqc:
  "eqc v w \<Longrightarrow> \<not> auto_move v \<Longrightarrow> eqc (check_file_sizes_ver2 v) (check_file_sizes_ver2 w)"
  unfolding check_file_sizes_ver2_def
  by (simp add: eqc_lists rel_outcome_state for_each_eqc [OF file_body_ver2_frame file_body_ver2_eqc])

lemma for_each_dir_ver2_frame: "frame v (state_of (for_each dir_body_ver2 v xs))"
proof (induction xs arbitrary: v)
  case Nil
  show ?case by simp
next
  case (Cons x xs)
  show ?case
    using dir_body_ver2_frame [of v x] Cons.IH
    by (cases "dir_body_ver2 v x") (auto intro: frame_trans)
qed

lemma for_each_dir_ver3_frame: "frame v (state_of (for_each dir_body_ver3 v xs))"
proof (induction xs arbitrary: v)
  case Nil
  show ?case by simp
next
  case (Cons x xs)
  show ?case
    using dir_body_ver3_frame [of v x] Cons.IH
    by (cases "dir_body_ver3 v x") (auto intro: frame_trans)
qed

lemma check_dir_file_counts_ver2_frame: "frame v (check_dir_file_counts_ver2 v)"
  unfolding check_dir_file_counts_ver2_def by (rule for_each_dir_ver2_frame)

lemma check_dir_file_counts_ver2_eqc:
  "eqc v w \<Longrightarrow> \<not> auto_move v \<Longrightarrow>
   eqc (check_dir_file_counts_ver2 v) (check_dir_file_counts_ver2 w)"
  unfolding check_dir_file_counts_ver2_def
  by (simp add: eqc_lists rel_outcome_state
      for_each_eqc [OF dir_body_ver2_frame dir_body_ver2_eqc])

lemma check_repo_size_ver2_frame: "frame v (check_repo_size_ver2 v)"
  by (simp add: check_repo_size_ver2_def Let_def split: sum.split)

lemma check_repo_size_ver2_eqc:
  "eqc v w \<Longrightarrow> eqc (check_repo_size_ver2 v) (check_repo_size_ver2 w)"
  by (simp add: check_repo_size_ver2_def Let_def eqc_def split: sum.split)

lemma frame_auto_move: "frame v v' \<Longrightarrow> auto_move v' = auto_move v"
  by (simp add: frame_def)

lemma validate_ver2_frame: "\<not> auto_move v \<Longrightarrow> frame v (validate_ver2 v)"
  unfolding validate_ver2_def
  by (blast intro: frame_trans check_file_sizes_ver2_frame check_dir_file_counts_ver2_frame
      check_repo_size_ver2_frame)

lemma validate_ver2_eqc:
  assumes "eqc v w" and "\<not> auto_move v"
  shows "eqc (validate_ver2 v) (validate_ver2 w)"
proof -
  from assms have a: "eqc (check_file_sizes_ver2 v) (check_file_sizes_ver2 w)"
    by (rule check_file_sizes_ver2_eqc)
  from assms(2) have "\<not> auto_move (check_file_sizes_ver2 v)"
    using check_file_sizes_ver2_frame [of v] by (simp add: frame_def)
  with a have "eqc (check_dir_file_counts_ver2 (check_file_sizes_ver2 v))
      (check_dir_file_counts_ver2 (check_file_sizes_ver2 w))"
    by (rule check_dir_file_counts_ver2_eqc)
  then show ?thesis unfolding validate_ver2_def by (rule check_repo_size_ver2_eqc)
qed


lemma check_file_sizes_ver3_frame:
  assumes "\<not> auto_move v"
  shows "frame v (state_of (check_file_sizes_ver3 v))"
proof -
  have a: "frame v (state_of (for_each critical_body_ver3 v (critical_dirs v)))"
    by (rule for_each_frame [where body = critical_body_ver3, OF critical_body_ver3_frame])
      (simp_all add: assms)
  show ?thesis
  proof (cases "for_each critical_body_ver3 v (critical_dirs v)")
    case (Raised e v')
    with a show ?thesis by (simp add: check_file_sizes_ver3_def)
  next
    case (Returned v')
    with a have f: "frame v v'" by simp
    with assms have "\<not> auto_move v'" by (simp add: frame_def)
    then have "frame v' (state_of (for_each remaining_body_ver3 v' (rglob (fs v') (repo_dir v'))))"
      by - (rule for_each_frame [where body = remaining_body_ver3, OF remaining_body_ver3_frame],
          simp_all)
    with f Returned show ?thesis
      by (simp add: check_file_sizes_ver3_def) (rule frame_trans)
  qed
qed

lemma check_file_sizes_ver3_eqc:
  assumes "eqc v w" and "\<not> auto_move v"
  shows "rel_outcome (check_file_sizes_ver3 v) (check_file_sizes_ver3 w)"
proof -
  have c: "critical_dirs w = critical_dirs v" using assms(1) by (simp add: eqc_def)
  have a: "rel_outcome (for_each critical_body_ver3 v (critical_dirs v))
             (for_each critical_body_ver3 w (critical_dirs v))"
    by (rule for_each_eqc [where body = critical_body_ver3,
          OF critical_body_ver3_frame critical_body_ver3_eqc]) (simp_all add: assms)
  have f: "frame v (state_of (for_each critical_body_ver3 v (critical_dirs v)))"
    by (rule for_each_frame [where body = critical_body_ver3, OF critical_body_ver3_frame])
      (simp_all add: assms)
  show ?thesis
  proof (cases "for_each critical_body_ver3 v (critical_dirs v)")
    case (Raised e v')
    with a obtain w' where "for_each critical_body_ver3 w (critical_dirs v) = Raised e w'"
      and "eqc v' w'" by (auto dest: rel_outcome_Raised)
    with Raised show ?thesis by (simp add: check_file_sizes_ver3_def c)
  next
    case (Returned v')
    with a obtain w' where w: "for_each critical_body_ver3 w (critical_dirs v) = Returned w'"
      and e: "eqc v' w'" by (auto dest: rel_outcome_Returned)
    from f Returned assms(2) have "\<not> auto_move v'" by (simp add: frame_def)
    with e have "rel_outcome (for_each remaining_body_ver3 v' (rglob (fs v') (repo_dir v')))
        (for_each remaining_body_ver3 w' (rglob (fs v') (repo_dir v')))"
      by - (rule for_each_eqc [where body = remaining_body_ver3,
            OF remaining_body_ver3_frame remaining_body_ver3_eqc], simp_all)
    with Returned w e show ?thesis by (simp add: check_file_sizes_ver3_def c eqc_lists)
  qed
qed

lemma check_dir_file_counts_ver3_frame: "frame v (state_of (check_dir_file_counts_ver3 v))"
  unfolding check_dir_file_counts_ver3_def by (rule for_each_dir_ver3_frame)

lemma check_dir_file_counts_ver3_eqc:
  "eqc v w \<Longrightarrow> \<not> auto_move v \<Longrightarrow>
   rel_outcome (check_dir_file_counts_ver3 v) (check_dir_file_counts_ver3 w)"
  unfolding check_dir_file_counts_ver3_def
  by (simp add: eqc_lists for_each_eqc [OF dir_body_ver3_frame dir_body_ver3_eqc])

lemma check_repo_size_ver3_frame: "frame v (state_of (check_repo_size_ver3 v))"
  by (simp add: check_repo_size_ver3_def Let_def split: sum.split)

lemma check_repo_size_ver3_eqc:
  "eqc v w \<Longrightarrow> rel_outcome (check_repo_size_ver3 v) (check_repo_size_ver3 w)"
  by (simp add: check_repo_size_ver3_def Let_def eqc_def split: sum.split)

lemma validate_ver3_frame:
  assumes "\<not> auto_move v"
  shows "frame v (state_of (validate_ver3 v))"
proof -
  have a: "frame v (state_of (check_file_sizes_ver3 v))"
    using assms by (rule check_file_sizes_ver3_frame)
  show ?thesis
  proof (cases "check_file_sizes_ver3 v")
    case (Raised e v1)
    with a show ?thesis by (simp add: validate_ver3_def)
  next
    case (Returned v1)
    with a have f1: "frame v v1" by simp
    have b: "frame v1 (state_of (check_dir_file_counts_ver3 v1))"
      by (rule check_dir_file_counts_ver3_frame)
    show ?thesis
    proof (cases "check_dir_file_counts_ver3 v1")
      case (Raised e v2)
      with b f1 Returned show ?thesis
        by (simp add: validate_ver3_def) (rule frame_trans)
    next
      case R2: (Returned v2)
      with b have "frame v1 v2" by simp
      with f1 have "frame v v2" by (rule frame_trans)
      moreover have "frame v2 (state_of (check_repo_size_ver3 v2))"
        by (rule check_repo_size_ver3_frame)
      ultimately have "frame v (state_of (check_repo_size_ver3 v2))" by (rule frame_trans)
      with Returned R2 show ?thesis by (simp add: validate_ver3_def)
    qed
  qed
qed

lemma validate_ver3_eqc:
  assumes "eqc v w" and "\<not> auto_move v"
  shows "rel_outcome (validate_ver3 v) (validate_ver3 w)"
proof -
  have a: "rel_outcome (check_file_sizes_ver3 v) (check_file_sizes_ver3 w)"
    using assms by (rule check_file_sizes_ver3_eqc)
  have f: "frame v (state_of (check_file_sizes_ver3 v))"
    using assms(2) by (rule check_file_sizes_ver3_frame)
  show ?thesis
  proof (cases "check_file_sizes_ver3 v")
    case (Raised e v1)
    with a obtain w1 where "check_file_sizes_ver3 w = Raised e w1" and "eqc v1 w1"
      by (auto dest: rel_outcome_Raised)
    with Raised show ?thesis by (simp add: validate_ver3_def)
  next
    case (Returned v1)
    with a obtain w1 where w1: "check_file_sizes_ver3 w = Returned w1" and e1: "eqc v1 w1"
      by (auto dest: rel_outcome_Returned)
    from f Returned assms(2) have n1: "\<not> auto_move v1" by (simp add: frame_def)
    with e1 have b: "rel_outcome (check_dir_file_counts_ver3 v1) (check_dir_file_counts_ver3 w1)"
      by (rule check_dir_file_counts_ver3_eqc)
    show ?thesis
    proof (cases "check_dir_file_counts_ver3 v1")
      case (Raised e v2)
      with b obtain w2 where "check_dir_file_counts_ver3 w1 = Raised e w2" and "eqc v2 w2"
        by (auto dest: rel_outcome_Raised)
      with Raised Returned w1 show ?thesis by (simp add: validate_ver3_def)
    next
      case R2: (Returned v2)
      with b obtain w2 where w2: "check_dir_file_counts_ver3 w1 = Returned w2"
        and e2: "eqc v2 w2" by (auto dest: rel_outcome_Returned)
      from e2 have "rel_outcome (check_repo_size_ver3 v2) (check_repo_size_ver3 w2)"
        by (rule check_repo_size_ver3_eqc)
      with Returned R2 w1 w2 show ?thesis by (simp add: validate_ver3_def)
    qed
  qed
qed

lemma init_eqc:
  "eqc (GitHubValidator_init world now repo backup move)
       (GitHubValidator_init world now' repo backup move)"
  by (simp add: eqc_def GitHubValidator_init_def)

lemma init_fields [simp]:
  "fs (GitHubValidator_init world now repo backup move) = world"
  "auto_move (GitHubValidator_init world now repo backup move) = move"
  by (simp_all add: GitHubValidator_init_def)

text \<open>
  C10. With automatic relocation off, a run of either revision leaves the file system as
  it found it, and a second run, by a new validator at any later time on the file system
  the first run left, reports the same issues (revision 3: also the same statistics, and
  it raises exactly when the first run raised). The report file that
  \<^verbatim>\<open>_setup_logging\<close> opens in the working directory is outside the model.
\<close>

theorem audit_without_relocation_is_repeatable:
  "fs (validate_ver2 (GitHubValidator_init world now repo backup False)) = world \<and>
   issues (validate_ver2 (GitHubValidator_init
      (fs (validate_ver2 (GitHubValidator_init world now repo backup False)))
      now' repo backup False)) =
   issues (validate_ver2 (GitHubValidator_init world now repo backup False)) \<and>
   fs (state_of (validate_ver3 (GitHubValidator_init world now repo backup False))) = world \<and>
   issues (state_of (validate_ver3 (GitHubValidator_init
      (fs (state_of (validate_ver3 (GitHubValidator_init world now repo backup False))))
      now' repo backup False))) =
   issues (state_of (validate_ver3 (GitHubValidator_init world now repo backup False))) \<and>
   stats (state_of (validate_ver3 (GitHubValidator_init
      (fs (state_of (validate_ver3 (GitHubValidator_init world now repo backup False))))
      now' repo backup False))) =
   stats (state_of (validate_ver3 (GitHubValidator_init world now repo backup False))) \<and>
   raised (validate_ver3 (GitHubValidator_init
      (fs (state_of (validate_ver3 (GitHubValidator_init world now repo backup False))))
      now' repo backup False)) =
   raised (validate_ver3 (GitHubValidator_init world now repo backup False))"
proof -
  let ?v = "GitHubValidator_init world now repo backup False"
  let ?w = "GitHubValidator_init world now' repo backup False"
  have n: "\<not> auto_move ?v" by simp
  have e: "eqc ?v ?w" by (rule init_eqc)
  have f2: "fs (validate_ver2 ?v) = world"
    using validate_ver2_frame [OF n] by (simp add: frame_def)
  have f3: "fs (state_of (validate_ver3 ?v)) = world"
    using validate_ver3_frame [OF n] by (simp add: frame_def)
  have e2: "eqc (validate_ver2 ?v) (validate_ver2 ?w)"
    using e n by (rule validate_ver2_eqc)
  have r3: "rel_outcome (validate_ver3 ?v) (validate_ver3 ?w)"
    using e n by (rule validate_ver3_eqc)
  have e3: "eqc (state_of (validate_ver3 ?v)) (state_of (validate_ver3 ?w))"
    using r3 by (rule rel_outcome_state)
  have x3: "raised (validate_ver3 ?v) = raised (validate_ver3 ?w)"
    using r3 by (rule rel_outcome_raised)
  show ?thesis
    using e2 e3 x3 by (simp add: f2 f3 eqc_def)
qed

section \<open>Symbolic links\<close>

lemma lookup_errors:
  "lookup r p = Inl e \<Longrightarrow>
   e = PermissionError \<or> e = FileNotFoundError \<or> e = NotADirectoryError"
  by (induction r p rule: lookup.induct) (auto split: option.splits)

lemma follow_errors:
  "follow r k p = Inl e \<Longrightarrow> e = PermissionError \<or> ignore_error e"
proof (induction k arbitrary: p)
  case 0
  then show ?case
    by (auto split: sum.splits node.splits dest: lookup_errors)
next
  case (Suc k)
  then show ?case
    by (auto split: sum.splits node.splits dest: lookup_errors)
qed

lemma is_file_raises: "is_file r p = Inl e \<Longrightarrow> e = PermissionError"
  by (auto simp: is_file_def split: sum.splits prod.splits node.splits if_splits
      dest: follow_errors)

lemma is_symlink_Symlink: "lookup r p = Inr (Symlink t st) \<Longrightarrow> is_symlink r p = Inr True"
  by (simp add: is_symlink_def)

text \<open>
  C8. An entry that is a symbolic link is never measured. The body of the file-size
  loop, in revision 2 and in both loops of revision 3, leaves the validator as it is at
  such an entry: no issue, no count, no relocation; and the entry adds no size to the
  sizes that \<^verbatim>\<open>check_repo_size\<close> sums. (The one thing a link can do is end the
  pass, when its target cannot be read: \<^verbatim>\<open>is_file\<close> follows the link and raises.)
\<close>

theorem symlinks_are_not_measured:
  assumes "lookup (fs v) p = Inr (Symlink t st)"
  shows "(file_body_ver2 v p = Returned v \<or> file_body_ver2 v p = Raised PermissionError v) \<and>
         (file_body_ver3 v p = Returned v \<or> file_body_ver3 v p = Raised PermissionError v) \<and>
         (remaining_body_ver3 v p = Returned v \<or>
          remaining_body_ver3 v p = Raised PermissionError v) \<and>
         (file_sizes (fs v) (p # ps) = file_sizes (fs v) ps \<or>
          file_sizes (fs v) (p # ps) = Inl PermissionError)"
proof -
  have l: "is_symlink (fs v) p = Inr True"
    using assms by (rule is_symlink_Symlink)
  show ?thesis
  proof (cases "is_file (fs v) p")
    case (Inl e)
    then have "e = PermissionError" by (rule is_file_raises)
    with Inl show ?thesis
      by (simp add: file_body_ver2_def file_body_ver3_def remaining_body_ver3_def)
  next
    case (Inr b)
    with l show ?thesis
      by (cases b) (simp_all add: file_body_ver2_def file_body_ver3_def remaining_body_ver3_def)
  qed
qed


text \<open>
  C8 at the link that a relocation left at \<^verbatim>\<open>/repo/a.bin\<close>.
\<close>

theorem symlinks_are_not_measured_witness:
  "lookup (fs relocated_validator) [''repo'', ''a.bin''] =
     Inr (Symlink [''backup'', ''a.bin''] \<lparr>st_size = 13, st_atime = 11, st_mtime = 7\<rparr>) \<and>
   (file_body_ver2 relocated_validator [''repo'', ''a.bin''] = Returned relocated_validator \<or>
    file_body_ver2 relocated_validator [''repo'', ''a.bin''] =
      Raised PermissionError relocated_validator) \<and>
   (file_body_ver3 relocated_validator [''repo'', ''a.bin''] = Returned relocated_validator \<or>
    file_body_ver3 relocated_validator [''repo'', ''a.bin''] =
      Raised PermissionError relocated_validator) \<and>
   (remaining_body_ver3 relocated_validator [''repo'', ''a.bin''] =
      Returned relocated_validator \<or>
    remaining_body_ver3 relocated_validator [''repo'', ''a.bin''] =
      Raised PermissionError relocated_validator) \<and>
   (file_sizes (fs relocated_validator) [[''repo'', ''a.bin'']] =
      file_sizes (fs relocated_validator) [] \<or>
    file_sizes (fs relocated_validator) [[''repo'', ''a.bin'']] = Inl PermissionError)"
proof -
  have h: "lookup (fs relocated_validator) [''repo'', ''a.bin''] =
     Inr (Symlink [''backup'', ''a.bin''] \<lparr>st_size = 13, st_atime = 11, st_mtime = 7\<rparr>)"
    by (simp add: relocated_validator_def relocated_world_def GitHubValidator_init_def)
  from h symlinks_are_not_measured [OF h, of "[]"] show ?thesis
    by (rule conjI)
qed

section \<open>Evaluating paths\<close>

lemma follow_Inl: "lookup r p = Inl e \<Longrightarrow> follow r k p = Inl e"
  by (cases k) simp_all

lemma follow_File: "lookup r p = Inr (File b st) \<Longrightarrow> follow r k p = Inr (p, File b st)"
  by (cases k) simp_all

lemma follow_Dir: "lookup r p = Inr (Dir st es) \<Longrightarrow> follow r k p = Inr (p, Dir st es)"
  by (cases k) simp_all

lemma follow_Symlink:
  "lookup r p = Inr (Symlink t st) \<Longrightarrow> follow r (numeral n) p = follow r (pred_numeral n) t"
  by (simp add: numeral_eq_Suc)

section \<open>The two revisions on one tree\<close>

lemma database_lookup:
  "lookup database_world [''repo'', ''database.bin''] = Inr (File ''x'' (stat_of_size 157286400))"
  "lookup database_world [''repo'', ''src''] = Inl FileNotFoundError"
  "lookup database_world [''repo'', ''data''] = Inl FileNotFoundError"
  by (simp_all add: database_world_def)

lemma database_rglob:
  "rglob database_world [''repo''] = [[''repo'', ''database.bin'']]"
  by (simp add: database_world_def rglob_def)

lemma database_is_file:
  "is_file database_world [''repo'', ''database.bin''] = Inr True"
  by (simp add: is_file_def follow_File [OF database_lookup(1)])

lemma database_is_symlink:
  "is_symlink database_world [''repo'', ''database.bin''] = Inr False"
  by (simp add: database_world_def is_symlink_def)

lemma database_stat:
  "os_stat database_world [''repo'', ''database.bin''] = Inr (stat_of_size 157286400)"
  by (simp add: os_stat_def follow_File [OF database_lookup(1)])

lemma database_size_mb: "size_mb_of (stat_of_size 157286400) = 150"
  by (simp add: size_mb_of_def stat_of_size_def)

lemma database_in_critical:
  "in_critical database_validator [''repo'', ''database.bin'']"
  by (simp add: in_critical_def database_validator_def GitHubValidator_init_def path_str_def)

lemma database_no_critical_dir:
  "path_exists database_world [''repo'', ''src''] = Inr False"
  "path_exists database_world [''repo'', ''data''] = Inr False"
  by (simp_all add: path_exists_def follow_Inl [OF database_lookup(2)]
      follow_Inl [OF database_lookup(3)])

text \<open>
  C5 at \<^verbatim>\<open>/repo/database.bin\<close>. Revision 2 reports the file as a size violation.
  Revision 3 reports nothing and counts no file: \<^verbatim>\<open>/repo/data\<close> does not exist, so the
  first loop passes it by, and the second loop drops the file because the string
  \<^verbatim>\<open>/repo/database.bin\<close> starts with the string \<^verbatim>\<open>/repo/data\<close>.
\<close>

theorem revision3_skips_file_named_like_critical_dir:
  "issues (check_file_sizes_ver2 database_validator) = [FileError [''database.bin''] 150] \<and>
   check_file_sizes_ver3 database_validator = Returned database_validator"
proof -
  have v: "fs database_validator = database_world" "repo_dir database_validator = [''repo'']"
    "critical_dirs database_validator = [''src'', ''data'']"
    "auto_move database_validator = False" "issues database_validator = []"
    by (simp_all add: database_validator_def GitHubValidator_init_def)
  have a: "issues (check_file_sizes_ver2 database_validator) = [FileError [''database.bin''] 150]"
    by (simp add: check_file_sizes_ver2_def v database_rglob file_body_ver2_def
        database_is_file database_is_symlink database_stat database_size_mb
        handle_file_size_ver2_def relative_to_def MAX_GITHUB_FILESIZE_MB_def)
  have b: "check_file_sizes_ver3 database_validator = Returned database_validator"
    by (simp add: check_file_sizes_ver3_def v critical_body_ver3_def database_no_critical_dir
        database_rglob remaining_body_ver3_def database_is_file database_is_symlink
        database_in_critical)
  from a b show ?thesis by (rule conjI)
qed

section \<open>The directory pass\<close>

lemma lookup_append:
  "lookup r (p @ q) = (case lookup r p of Inl e \<Rightarrow> Inl e | Inr n \<Rightarrow> lookup n q)"
proof (induction p arbitrary: r)
  case Nil
  show ?case by (cases r) simp_all
next
  case (Cons x xs)
  show ?case by (cases r) (simp_all add: Cons.IH split: option.split)
qed

lemma for_each_skip:
  "(\<And>x. x \<in> set xs \<Longrightarrow> body v x = Returned v) \<Longrightarrow> for_each body v xs = Returned v"
  by (induction xs) simp_all

lemma concat_all_empty: "(\<And>x. x \<in> set xs \<Longrightarrow> f x = []) \<Longrightarrow> concat (map f xs) = []"
  by (induction xs) simp_all

lemma rglob_from_not_Dir: "\<not> is_Dir c \<Longrightarrow> rglob_from p c = []"
  by (cases c) simp_all

lemma is_File_not_Dir: "is_File c \<Longrightarrow> \<not> is_Dir c"
  by (cases c) simp_all

lemma rglob_from_files:
  assumes "\<forall>e \<in> set es. is_File (snd e)"
  shows "rglob_from d (Dir st es) = map (\<lambda>(x, c). d @ [x]) es"
proof -
  have "concat (map (\<lambda>(x, c). rglob_from (d @ [x]) c) es) = []"
  proof (rule concat_all_empty)
    fix e assume "e \<in> set es"
    with assms have "\<not> is_Dir (snd e)" by (simp add: is_File_not_Dir)
    then show "(case e of (x, c) \<Rightarrow> rglob_from (d @ [x]) c) = []"
      by (cases e) (simp add: rglob_from_not_Dir)
  qed
  then show ?thesis by simp
qed

lemma map_of_is_File:
  assumes "\<forall>e \<in> set es. is_File (snd e)" and "(x, c) \<in> set es"
  shows "\<exists>b s. map_of es x = Some (File b s)"
proof -
  from assms(2) have "x \<in> fst ` set es" by force
  then obtain c' where m: "map_of es x = Some c'"
    by (cases "map_of es x") (auto simp: map_of_eq_None_iff)
  then have "(x, c') \<in> set es" by (rule map_of_SomeD)
  with assms(1) have "is_File c'" by force
  with m show ?thesis by (cases c') auto
qed

lemma is_dir_of_file_entry:
  assumes d: "lookup r d = Inr (Dir st es)"
    and f: "\<forall>e \<in> set es. is_File (snd e)" and x: "(x, c) \<in> set es"
  shows "is_dir r (d @ [x]) = Inr False"
proof -
  from f x have "\<exists>b s. map_of es x = Some (File b s)" by (rule map_of_is_File)
  then obtain b s where m: "map_of es x = Some (File b s)" by (elim exE)
  have l: "lookup r (d @ [x]) = Inr (File b s)" by (simp add: lookup_append d m)
  show ?thesis by (simp add: is_dir_def follow_File [OF l])
qed

lemma dir_bodies_of_file_entry:
  assumes d: "lookup (fs v) d = Inr (Dir st es)"
    and f: "\<forall>e \<in> set es. is_File (snd e)" and x: "(x, c) \<in> set es"
  shows "dir_body_ver2 v (d @ [x]) = Returned v" "dir_body_ver3 v (d @ [x]) = Returned v"
  using is_dir_of_file_entry [OF d f x]
  by (simp_all add: dir_body_ver2_def dir_body_ver3_def)

lemma flat_directory_never_counted:
  assumes d: "lookup (fs v) (repo_dir v) = Inr (Dir st es)"
    and f: "\<forall>e \<in> set es. is_File (snd e)"
  shows "check_dir_file_counts_ver2 v = v" "check_dir_file_counts_ver3 v = Returned v"
proof -
  have "rglob_from (repo_dir v) (Dir st es) = map (\<lambda>(x, c). repo_dir v @ [x]) es"
    using f by (rule rglob_from_files)
  then have r: "rglob (fs v) (repo_dir v) = map (\<lambda>(x, c). repo_dir v @ [x]) es"
    by (simp add: rglob_def d)
  have "for_each dir_body_ver2 v (map (\<lambda>(x, c). repo_dir v @ [x]) es) = Returned v"
  proof (rule for_each_skip)
    fix p assume "p \<in> set (map (\<lambda>(x, c). repo_dir v @ [x]) es)"
    then obtain x c where "(x, c) \<in> set es" and "p = repo_dir v @ [x]" by auto
    then show "dir_body_ver2 v p = Returned v"
      by (simp add: dir_bodies_of_file_entry(1) [OF d f])
  qed
  then show "check_dir_file_counts_ver2 v = v"
    by (simp add: check_dir_file_counts_ver2_def r)
  have "for_each dir_body_ver3 v (map (\<lambda>(x, c). repo_dir v @ [x]) es) = Returned v"
  proof (rule for_each_skip)
    fix p assume "p \<in> set (map (\<lambda>(x, c). repo_dir v @ [x]) es)"
    then obtain x c where "(x, c) \<in> set es" and "p = repo_dir v @ [x]" by auto
    then show "dir_body_ver3 v p = Returned v"
      by (simp add: dir_bodies_of_file_entry(2) [OF d f])
  qed
  then show "check_dir_file_counts_ver3 v = Returned v"
    by (simp add: check_dir_file_counts_ver3_def r)
qed

lemma many_files_are_files: "\<forall>e \<in> set (many_files n). is_File (snd e)"
  by (auto simp: many_files_def)

lemma length_many_files [simp]: "length (many_files n) = n"
  by (simp add: many_files_def)


lemma crowded_subdir_ver2:
  "issues (check_dir_file_counts_ver2
     (GitHubValidator_init crowded_subdir 0 [''repo''] [''backup''] False)) =
   [DirWarning [''d''] 1001]"
proof -
  let ?v = "GitHubValidator_init crowded_subdir 0 [''repo''] [''backup''] False"
  let ?v1 = "?v\<lparr>issues := issues ?v @ [DirWarning [''d''] 1001]\<rparr>"
  let ?rest = "map (\<lambda>(x, c). [''repo'', ''d''] @ [x]) (many_files 1001)"
  have l: "lookup crowded_subdir [''repo'', ''d''] =
      Inr (Dir (stat_of_size 4096) (many_files 1001))"
    by (simp add: crowded_subdir_def)
  have "rglob_from [''repo'', ''d''] (Dir (stat_of_size 4096) (many_files 1001)) = ?rest"
    using many_files_are_files by (rule rglob_from_files)
  then have r: "rglob crowded_subdir [''repo''] = [''repo'', ''d''] # ?rest"
    by (simp add: rglob_def crowded_subdir_def)
  have b: "dir_body_ver2 ?v [''repo'', ''d''] = Returned ?v1"
    by (simp add: dir_body_ver2_def is_dir_def glob_star_def follow_Dir [OF l]
        GitHubValidator_init_def MAX_GITHUB_FILES_PER_DIR_def relative_to_def)
  have d1: "lookup (fs ?v1) [''repo'', ''d''] = Inr (Dir (stat_of_size 4096) (many_files 1001))"
    by (simp add: GitHubValidator_init_def l)
  have "for_each dir_body_ver2 ?v1 ?rest = Returned ?v1"
  proof (rule for_each_skip)
    fix p assume "p \<in> set ?rest"
    then obtain x c where "(x, c) \<in> set (many_files 1001)" and "p = [''repo'', ''d''] @ [x]"
      by auto
    then show "dir_body_ver2 ?v1 p = Returned ?v1"
      by (simp only: dir_bodies_of_file_entry(1) [OF d1 many_files_are_files])
  qed
  with b have "for_each dir_body_ver2 ?v ([''repo'', ''d''] # ?rest) = Returned ?v1"
    by simp
  then show ?thesis
    by (simp add: check_dir_file_counts_ver2_def r GitHubValidator_init_def)
qed

text \<open>
  C9 at a repository whose own directory holds 1001 files: neither revision reports it,
  because \<^verbatim>\<open>rglob('*')\<close> yields what lies below the repository directory and not that
  directory itself. The same 1001 files one level down, in \<^verbatim>\<open>/repo/d\<close>, are reported.
\<close>

theorem root_directory_is_never_counted:
  "length (glob_star crowded_root [''repo'']) = 1001 \<and>
   check_dir_file_counts_ver2 (GitHubValidator_init crowded_root 0 [''repo''] [''backup''] False) =
     GitHubValidator_init crowded_root 0 [''repo''] [''backup''] False \<and>
   check_dir_file_counts_ver3 (GitHubValidator_init crowded_root 0 [''repo''] [''backup''] False) =
     Returned (GitHubValidator_init crowded_root 0 [''repo''] [''backup''] False) \<and>
   issues (check_dir_file_counts_ver2
     (GitHubValidator_init crowded_subdir 0 [''repo''] [''backup''] False)) =
   [DirWarning [''d''] 1001]"
proof -
  let ?v = "GitHubValidator_init crowded_root 0 [''repo''] [''backup''] False"
  have l: "lookup crowded_root [''repo''] = Inr (Dir (stat_of_size 4096) (many_files 1001))"
    by (simp add: crowded_root_def)
  have d: "lookup (fs ?v) (repo_dir ?v) = Inr (Dir (stat_of_size 4096) (many_files 1001))"
    by (simp add: GitHubValidator_init_def l)
  have g: "length (glob_star crowded_root [''repo'']) = 1001"
    by (simp add: glob_star_def follow_Dir [OF l])
  show ?thesis
    using g flat_directory_never_counted [OF d many_files_are_files] crowded_subdir_ver2
    by simp
qed

section \<open>Errors during a scan\<close>

lemma for_each_append:
  "for_each body v (xs @ ys) =
     (case for_each body v xs of
        Raised e v' \<Rightarrow> Raised e v'
      | Returned v' \<Rightarrow> for_each body v' ys)"
  by (induction xs arbitrary: v) (simp_all split: outcome.split)

lemma for_each_stops:
  "for_each body v xs = Returned v' \<Longrightarrow> body v' x = Raised e v'' \<Longrightarrow>
   for_each body v (xs @ x # ys) = Raised e v''"
  by (simp add: for_each_append)

lemma bodies_raise:
  assumes "is_file (fs v) p = Inl e"
  shows "file_body_ver2 v p = Raised e v" "file_body_ver3 v p = Raised e v"
    "remaining_body_ver3 v p = Raised e v"
  using assms by (simp_all add: file_body_ver2_def file_body_ver3_def remaining_body_ver3_def)

lemma rglob_no_dir:
  "lookup r p = Inl e \<Longrightarrow> rglob r p = []"
  "lookup r p = Inr (File b st) \<Longrightarrow> rglob r p = []"
  by (simp_all add: rglob_def)

lemma path_exists_below_missing:
  assumes "lookup r p = Inl FileNotFoundError \<or> lookup r p = Inr (File b st)"
  shows "path_exists r (p @ [d]) = Inr False"
proof -
  from assms have "lookup r (p @ [d]) = Inl FileNotFoundError \<or>
      lookup r (p @ [d]) = Inl NotADirectoryError"
    by (auto simp: lookup_append)
  then show ?thesis by (auto simp: path_exists_def follow_Inl)
qed

lemma critical_loop_below_missing:
  assumes "lookup (fs v) (repo_dir v) = Inl FileNotFoundError \<or>
           lookup (fs v) (repo_dir v) = Inr (File b st)"
  shows "for_each critical_body_ver3 v ds = Returned v"
proof (rule for_each_skip)
  fix d
  show "critical_body_ver3 v d = Returned v"
    by (simp add: critical_body_ver3_def path_exists_below_missing [OF assms])
qed

text \<open>
  C4, as the code has it. The first entry at which \<^verbatim>\<open>is_file\<close> raises ends the
  file-size pass: what the entries before it led to stays, the entry is not recorded in
  the issues, and no later entry is visited. Revision 2 swallows the exception, so
  \<^verbatim>\<open>check_file_sizes\<close> returns the state reached before the entry; revision 3 raises
  it again and the whole run ends with it. A repository directory that is missing or is
  a regular file is no error: the listing is empty, and the file-size pass and the
  directory pass of both revisions return without a report.
\<close>

theorem scan_stops_at_unreadable_entry:
  "(rglob (fs v) (repo_dir v) = ps @ p # qs \<and> for_each file_body_ver2 v ps = Returned v' \<and>
      is_file (fs v') p = Inl e \<longrightarrow>
    check_file_sizes_ver2 v = v') \<and>
   (for_each critical_body_ver3 u (critical_dirs u) = Returned u1 \<and>
      rglob (fs u1) (repo_dir u1) = ps3 @ p3 # qs3 \<and>
      for_each remaining_body_ver3 u1 ps3 = Returned u' \<and> is_file (fs u') p3 = Inl e3 \<longrightarrow>
    validate_ver3 u = Raised e3 u') \<and>
   (lookup (fs w) (repo_dir w) = Inl FileNotFoundError \<or>
      lookup (fs w) (repo_dir w) = Inr (File b st) \<longrightarrow>
    check_file_sizes_ver2 w = w \<and> check_dir_file_counts_ver2 w = w \<and>
    check_file_sizes_ver3 w = Returned w \<and> check_dir_file_counts_ver3 w = Returned w)"
proof (intro conjI impI)
  assume a: "rglob (fs v) (repo_dir v) = ps @ p # qs \<and>
      for_each file_body_ver2 v ps = Returned v' \<and> is_file (fs v') p = Inl e"
  then have "file_body_ver2 v' p = Raised e v'" by (simp add: bodies_raise)
  with a have "for_each file_body_ver2 v (ps @ p # qs) = Raised e v'"
    by (simp add: for_each_stops)
  with a show "check_file_sizes_ver2 v = v'" by (simp add: check_file_sizes_ver2_def)
next
  assume a: "for_each critical_body_ver3 u (critical_dirs u) = Returned u1 \<and>
      rglob (fs u1) (repo_dir u1) = ps3 @ p3 # qs3 \<and>
      for_each remaining_body_ver3 u1 ps3 = Returned u' \<and> is_file (fs u') p3 = Inl e3"
  then have "remaining_body_ver3 u' p3 = Raised e3 u'" by (simp add: bodies_raise)
  with a have "for_each remaining_body_ver3 u1 (ps3 @ p3 # qs3) = Raised e3 u'"
    by (simp add: for_each_stops)
  with a have "check_file_sizes_ver3 u = Raised e3 u'" by (simp add: check_file_sizes_ver3_def)
  then show "validate_ver3 u = Raised e3 u'" by (simp add: validate_ver3_def)
next
  assume a: "lookup (fs w) (repo_dir w) = Inl FileNotFoundError \<or>
      lookup (fs w) (repo_dir w) = Inr (File b st)"
  then have r: "rglob (fs w) (repo_dir w) = []" by (auto simp: rglob_no_dir)
  show "check_file_sizes_ver2 w = w" by (simp add: check_file_sizes_ver2_def r)
  show "check_dir_file_counts_ver2 w = w" by (simp add: check_dir_file_counts_ver2_def r)
  show "check_file_sizes_ver3 w = Returned w"
    by (simp add: check_file_sizes_ver3_def r critical_loop_below_missing [OF a])
  show "check_dir_file_counts_ver3 w = Returned w"
    by (simp add: check_dir_file_counts_ver3_def r)
qed

lemma denied_lookup:
  "lookup denied_world [''repo'', ''a.bin''] = Inr (File ''a'' (stat_of_size 62914560))"
  "lookup denied_world [''repo'', ''secret''] = Inl PermissionError"
  "lookup denied_world [''repo'', ''src''] = Inl FileNotFoundError"
  "lookup denied_world [''repo'', ''data''] = Inl FileNotFoundError"
  by (simp_all add: denied_world_def)

lemma denied_rglob:
  "rglob denied_world [''repo''] =
     [[''repo'', ''a.bin'']] @ [''repo'', ''secret''] # [[''repo'', ''big.bin'']]"
  by (simp add: rglob_def denied_world_def)

lemma denied_fields:
  "fs denied_validator = denied_world" "repo_dir denied_validator = [''repo'']"
  "critical_dirs denied_validator = [''src'', ''data'']"
  "fs denied_warned_ver2 = denied_world" "fs denied_warned_ver3 = denied_world"
  "repo_dir denied_warned_ver2 = [''repo'']" "repo_dir denied_warned_ver3 = [''repo'']"
  by (simp_all add: denied_validator_def denied_warned_ver2_def denied_warned_ver3_def
      GitHubValidator_init_def)

lemma denied_a_bin:
  "is_file denied_world [''repo'', ''a.bin''] = Inr True"
  "is_symlink denied_world [''repo'', ''a.bin''] = Inr False"
  "os_stat denied_world [''repo'', ''a.bin''] = Inr (stat_of_size 62914560)"
  "size_mb_of (stat_of_size 62914560) = 60"
  by (simp_all add: is_file_def is_symlink_def os_stat_def follow_File [OF denied_lookup(1)]
      denied_lookup(1) size_mb_of_def stat_of_size_def)

lemma denied_secret: "is_file denied_world [''repo'', ''secret''] = Inl PermissionError"
  by (simp add: is_file_def follow_Inl [OF denied_lookup(2)])

lemma denied_no_critical:
  "path_exists denied_world [''repo'', ''src''] = Inr False"
  "path_exists denied_world [''repo'', ''data''] = Inr False"
  by (simp_all add: path_exists_def follow_Inl [OF denied_lookup(3)]
      follow_Inl [OF denied_lookup(4)])

lemma denied_step_ver2:
  "for_each file_body_ver2 denied_validator [[''repo'', ''a.bin'']] = Returned denied_warned_ver2"
  by (simp add: file_body_ver2_def denied_fields denied_a_bin handle_file_size_ver2_def
      relative_to_def MAX_GITHUB_FILESIZE_MB_def MAX_GITHUB_FILESIZE_WARNING_MB_def
      denied_warned_ver2_def denied_validator_def GitHubValidator_init_def)

lemma denied_in_critical: "\<not> in_critical denied_validator [''repo'', ''a.bin'']"
  by (simp add: in_critical_def denied_validator_def GitHubValidator_init_def path_str_def)

lemma denied_step_ver3:
  "for_each remaining_body_ver3 denied_validator [[''repo'', ''a.bin'']] =
     Returned denied_warned_ver3"
  using denied_in_critical
  by (simp add: remaining_body_ver3_def denied_fields denied_a_bin handle_file_size_ver3_def
      relative_to_def denied_warned_ver3_def denied_validator_def GitHubValidator_init_def
      GitHubLimits_default_def ValidationStats_default_def)

lemma denied_critical_body:
  "critical_body_ver3 denied_validator ''src'' = Returned denied_validator"
  "critical_body_ver3 denied_validator ''data'' = Returned denied_validator"
  by (simp_all add: denied_fields critical_body_ver3_def denied_no_critical Let_def)

lemma denied_critical_loop:
  "for_each critical_body_ver3 denied_validator (critical_dirs denied_validator) =
     Returned denied_validator"
  unfolding denied_fields(3) by (simp add: denied_critical_body)

lemma lost_lookup: "lookup (fs lost_validator) (repo_dir lost_validator) = Inl FileNotFoundError"
  by (simp add: lost_validator_def GitHubValidator_init_def database_world_def)

text \<open>
  C4 at \<^verbatim>\<open>/repo\<close> with \<^verbatim>\<open>a.bin\<close> (60 MiB), the unreadable \<^verbatim>\<open>secret\<close> and
  \<^verbatim>\<open>big.bin\<close> (150 MiB): the warning for \<^verbatim>\<open>a.bin\<close> is all that is reported, and
  \<^verbatim>\<open>big.bin\<close> is never classified; and at a repository directory that does not exist.
\<close>

theorem scan_stops_at_unreadable_entry_witness:
  "(rglob (fs denied_validator) (repo_dir denied_validator) =
      [[''repo'', ''a.bin'']] @ [''repo'', ''secret''] # [[''repo'', ''big.bin'']] \<and>
    for_each file_body_ver2 denied_validator [[''repo'', ''a.bin'']] =
      Returned denied_warned_ver2 \<and>
    is_file (fs denied_warned_ver2) [''repo'', ''secret''] = Inl PermissionError) \<and>
   check_file_sizes_ver2 denied_validator = denied_warned_ver2 \<and>
   (for_each critical_body_ver3 denied_validator (critical_dirs denied_validator) =
      Returned denied_validator \<and>
    for_each remaining_body_ver3 denied_validator [[''repo'', ''a.bin'']] =
      Returned denied_warned_ver3 \<and>
    is_file (fs denied_warned_ver3) [''repo'', ''secret''] = Inl PermissionError) \<and>
   validate_ver3 denied_validator = Raised PermissionError denied_warned_ver3 \<and>
   lookup (fs lost_validator) (repo_dir lost_validator) = Inl FileNotFoundError \<and>
   check_file_sizes_ver2 lost_validator = lost_validator \<and>
   check_dir_file_counts_ver2 lost_validator = lost_validator \<and>
   check_file_sizes_ver3 lost_validator = Returned lost_validator \<and>
   check_dir_file_counts_ver3 lost_validator = Returned lost_validator"
proof -
  have h1: "rglob (fs denied_validator) (repo_dir denied_validator) =
      [[''repo'', ''a.bin'']] @ [''repo'', ''secret''] # [[''repo'', ''big.bin'']] \<and>
    for_each file_body_ver2 denied_validator [[''repo'', ''a.bin'']] =
      Returned denied_warned_ver2 \<and>
    is_file (fs denied_warned_ver2) [''repo'', ''secret''] = Inl PermissionError"
    by (simp only: denied_fields denied_rglob denied_step_ver2 denied_secret simp_thms)
  have h2: "for_each critical_body_ver3 denied_validator (critical_dirs denied_validator) =
      Returned denied_validator \<and>
    rglob (fs denied_validator) (repo_dir denied_validator) =
      [[''repo'', ''a.bin'']] @ [''repo'', ''secret''] # [[''repo'', ''big.bin'']] \<and>
    for_each remaining_body_ver3 denied_validator [[''repo'', ''a.bin'']] =
      Returned denied_warned_ver3 \<and>
    is_file (fs denied_warned_ver3) [''repo'', ''secret''] = Inl PermissionError"
    using denied_critical_loop
    by (simp only: denied_fields(1,2,4-) denied_rglob denied_step_ver3 denied_secret simp_thms)
  have h3: "lookup (fs lost_validator) (repo_dir lost_validator) = Inl FileNotFoundError"
    by (rule lost_lookup)
  show ?thesis
    using h1 h2 h3
      scan_stops_at_unreadable_entry [of denied_validator "[[''repo'', ''a.bin'']]"
        "[''repo'', ''secret'']" "[[''repo'', ''big.bin'']]" denied_warned_ver2 PermissionError
        denied_validator denied_validator "[[''repo'', ''a.bin'']]" "[''repo'', ''secret'']"
        "[[''repo'', ''big.bin'']]" denied_warned_ver3 PermissionError lost_validator
        "[]" "stat_of_size 0"]
    by blast
qed

text \<open>
  C4, where the claim fails: with a repository directory that does not exist, a whole run
  of revision 3 returns without raising and a run of revision 2 returns; neither reports
  anything.
\<close>

theorem missing_root_is_no_error:
  "raised (validate_ver3 lost_validator) = None \<and>
   issues (state_of (validate_ver3 lost_validator)) = [] \<and>
   issues (validate_ver2 lost_validator) = []"
proof -
  have r: "rglob (fs lost_validator) (repo_dir lost_validator) = []"
    by (simp add: rglob_no_dir(1) [OF lost_lookup])
  have c: "for_each critical_body_ver3 lost_validator ds = Returned lost_validator" for ds
    by (rule critical_loop_below_missing) (simp add: lost_lookup)
  have t: "total_bytes (fs lost_validator) (repo_dir lost_validator) = Inr 0"
    by (simp add: total_bytes_def r)
  have i: "issues lost_validator = []"
    by (simp add: lost_validator_def GitHubValidator_init_def)
  have l: "limits lost_validator = GitHubLimits_default"
    by (simp add: lost_validator_def GitHubValidator_init_def)
  have a: "check_file_sizes_ver3 lost_validator = Returned lost_validator"
    by (simp add: check_file_sizes_ver3_def c r)
  have b: "check_dir_file_counts_ver3 lost_validator = Returned lost_validator"
    by (simp add: check_dir_file_counts_ver3_def r)
  have d: "check_repo_size_ver3 lost_validator =
      Returned (lost_validator\<lparr>stats := (stats lost_validator)\<lparr>total_size_gb := 0\<rparr>\<rparr>)"
    by (simp add: check_repo_size_ver3_def t l GitHubLimits_default_def)
  have v3: "validate_ver3 lost_validator =
      Returned (lost_validator\<lparr>stats := (stats lost_validator)\<lparr>total_size_gb := 0\<rparr>\<rparr>)"
    by (simp add: validate_ver3_def a b d)
  have v2: "validate_ver2 lost_validator = lost_validator"
    by (simp add: validate_ver2_def check_file_sizes_ver2_def check_dir_file_counts_ver2_def
        check_repo_size_ver2_def r t MAX_GITHUB_REPO_SIZE_GB_def MAX_GITHUB_REPO_WARNING_GB_def)
  show ?thesis by (simp add: v3 v2 i)
qed

section \<open>Paths in a changing tree\<close>

lemma lookup_Dir_Cons:
  "lookup (Dir st es) (x # xs) =
     (case map_of es x of None \<Rightarrow> Inl FileNotFoundError | Some c \<Rightarrow> lookup c xs)"
  by simp

lemma lookup_below:
  "lookup r (p @ q) = Inr n \<Longrightarrow> q \<noteq> [] \<Longrightarrow> \<exists>st es. lookup r p = Inr (Dir st es)"
proof -
  assume a: "lookup r (p @ q) = Inr n" and q: "q \<noteq> []"
  then obtain m where m: "lookup r p = Inr m" and l: "lookup m q = Inr n"
    by (auto simp: lookup_append split: sum.splits)
  from q obtain x xs where "q = x # xs" by (cases q) auto
  with l have "is_Dir m" by (cases m) auto
  with m show ?thesis by (cases m) auto
qed

lemma lookup_put_other:
  "\<not> prefix p q \<Longrightarrow> \<not> prefix q p \<Longrightarrow> lookup (put_entry r p n) q = lookup r q"
proof (induction p arbitrary: r q)
  case Nil
  then show ?case by simp
next
  case (Cons x xs)
  from Cons.prems obtain y ys where q: "q = y # ys" by (cases q) auto
  show ?case
  proof (cases r)
    case (Dir st es)
    show ?thesis
    proof (cases "y = x")
      case False
      then show ?thesis
        by (simp add: Dir q AList.update_conv' split: option.split)
    next
      case True
      with Cons.prems q have a: "\<not> prefix xs ys" and b: "\<not> prefix ys xs" by simp_all
      from a have ne: "xs \<noteq> []" by auto
      show ?thesis
      proof (cases "map_of es x")
        case None
        with ne show ?thesis by (simp add: Dir q True)
      next
        case (Some c)
        with Cons.IH [OF a b] show ?thesis
          by (simp add: Dir q True AList.update_conv')
      qed
    qed
  qed simp_all
qed

lemma lookup_remove_other:
  "\<not> prefix p q \<Longrightarrow> \<not> prefix q p \<Longrightarrow> lookup (remove_entry r p) q = lookup r q"
proof (induction p arbitrary: r q)
  case Nil
  then show ?case by simp
next
  case (Cons x xs)
  from Cons.prems obtain y ys where q: "q = y # ys" by (cases q) auto
  show ?case
  proof (cases r)
    case (Dir st es)
    show ?thesis
    proof (cases "y = x")
      case False
      then show ?thesis
        by (simp add: Dir q AList.update_conv' AList.delete_conv' split: option.split)
    next
      case True
      with Cons.prems q have a: "\<not> prefix xs ys" and b: "\<not> prefix ys xs" by simp_all
      from a have ne: "xs \<noteq> []" by auto
      show ?thesis
      proof (cases "map_of es x")
        case None
        with ne show ?thesis by (simp add: Dir q True)
      next
        case (Some c)
        with Cons.IH [OF a b] ne show ?thesis
          by (simp add: Dir q True AList.update_conv')
      qed
    qed
  qed simp_all
qed

lemma lookup_put_same:
  "p \<noteq> [] \<Longrightarrow> lookup r (butlast p) = Inr (Dir st es) \<Longrightarrow>
   lookup (put_entry r p n) p = lookup n []"
proof (induction p arbitrary: r)
  case Nil
  then show ?case by simp
next
  case (Cons x xs)
  show ?case
  proof (cases xs)
    case Nil
    with Cons.prems have r: "r = Dir st es" by (cases r) simp_all
    show ?thesis
      by (simp add: r Nil AList.update_conv' split: option.split)
  next
    case (Cons y ys)
    with Cons.prems obtain st0 es0 where r: "r = Dir st0 es0" by (cases r) auto
    from Cons.prems Cons r obtain c where c: "map_of es0 x = Some c"
      and l: "lookup c (butlast xs) = Inr (Dir st es)"
      by (auto split: option.splits)
    have "xs \<noteq> []" using Cons by simp
    then have "lookup (put_entry c xs n) xs = lookup n []"
      using l by (rule Cons.IH)
    then show ?thesis by (simp add: r c AList.update_conv')
  qed
qed

lemma lookup_put_replace:
  assumes "lookup r p = Inr m"
  shows "lookup (put_entry r p n) p = lookup n []"
proof (cases "p = []")
  case True
  then show ?thesis by simp
next
  case False
  then have "lookup r (butlast p @ [last p]) = Inr m" using assms by simp
  then obtain st es where "lookup r (butlast p) = Inr (Dir st es)"
    using lookup_below by blast
  with False show ?thesis by (rule lookup_put_same)
qed

lemma lookup_remove_same:
  "p \<noteq> [] \<Longrightarrow> lookup r (butlast p) = Inr (Dir st es) \<Longrightarrow>
   lookup (remove_entry r p) p = Inl FileNotFoundError"
proof (induction p arbitrary: r)
  case Nil
  then show ?case by simp
next
  case (Cons x xs)
  show ?case
  proof (cases xs)
    case Nil
    with Cons.prems have r: "r = Dir st es" by (cases r) simp_all
    show ?thesis
      by (simp add: r Nil AList.delete_conv')
  next
    case (Cons y ys)
    with Cons.prems obtain st0 es0 where r: "r = Dir st0 es0" by (cases r) auto
    from Cons.prems Cons r obtain c where c: "map_of es0 x = Some c"
      and l: "lookup c (butlast xs) = Inr (Dir st es)"
      by (auto split: option.splits)
    have ne: "xs \<noteq> []" using Cons by simp
    then have "lookup (remove_entry c xs) xs = Inl FileNotFoundError"
      using l by (rule Cons.IH)
    then show ?thesis using ne by (simp add: r c AList.update_conv')
  qed
qed

lemma put_keeps_Dir:
  "lookup r q = Inr (Dir st es) \<Longrightarrow> \<not> prefix p q \<Longrightarrow>
   \<exists>es'. lookup (put_entry r p n) q = Inr (Dir st es')"
proof (induction p arbitrary: r q)
  case Nil
  then show ?case by simp
next
  case (Cons x xs)
  show ?case
  proof (cases q)
    case Nil
    with Cons.prems have r: "r = Dir st es" by (cases r) simp_all
    show ?thesis by (simp add: r Nil split: option.split)
  next
    case (Cons y ys)
    with Cons.prems obtain st0 es0 where r: "r = Dir st0 es0" by (cases r) auto
    from Cons.prems(1) Cons r obtain c where c: "map_of es0 y = Some c"
      and l: "lookup c ys = Inr (Dir st es)"
      by (auto split: option.splits)
    show ?thesis
    proof (cases "y = x")
      case False
      with c l show ?thesis
        by (simp add: r Cons AList.update_conv' split: option.split)
    next
      case True
      with Cons.prems(2) Cons have "\<not> prefix xs ys" by simp
      with l have "\<exists>es'. lookup (put_entry c xs n) ys = Inr (Dir st es')"
        by (rule Cons.IH)
      with c True show ?thesis by (simp add: r Cons AList.update_conv')
    qed
  qed
qed

lemma remove_keeps_Dir:
  "lookup r q = Inr (Dir st es) \<Longrightarrow> \<not> prefix p q \<Longrightarrow>
   \<exists>es'. lookup (remove_entry r p) q = Inr (Dir st es')"
proof (induction p arbitrary: r q)
  case Nil
  then show ?case by simp
next
  case (Cons x xs)
  show ?case
  proof (cases q)
    case Nil
    with Cons.prems have r: "r = Dir st es" by (cases r) simp_all
    show ?thesis by (simp add: r Nil split: option.split)
  next
    case (Cons y ys)
    with Cons.prems obtain st0 es0 where r: "r = Dir st0 es0" by (cases r) auto
    from Cons.prems(1) Cons r obtain c where c: "map_of es0 y = Some c"
      and l: "lookup c ys = Inr (Dir st es)"
      by (auto split: option.splits)
    show ?thesis
    proof (cases "y = x")
      case False
      with c l show ?thesis
        by (simp add: r Cons AList.update_conv' AList.delete_conv' split: option.split)
    next
      case True
      with Cons.prems(2) Cons have np: "\<not> prefix xs ys" by simp
      then have ne: "xs \<noteq> []" by auto
      from l np have "\<exists>es'. lookup (remove_entry c xs) ys = Inr (Dir st es')"
        by (rule Cons.IH)
      with c True ne show ?thesis by (simp add: r Cons AList.update_conv')
    qed
  qed
qed

lemma mkdir_parents_Dir:
  "mkdir_parents now r p = Inr r' \<Longrightarrow> \<exists>st es. r = Dir st es"
  by (cases r; cases p) auto

lemma mkdir_parents_keeps:
  "mkdir_parents now r p = Inr r' \<Longrightarrow> lookup r q = Inr n \<Longrightarrow> \<not> is_Dir n \<Longrightarrow>
   lookup r' q = Inr n"
proof (induction p arbitrary: r r' q)
  case Nil
  then show ?case by (cases r) simp_all
next
  case (Cons x xs)
  from Cons.prems(1) obtain st es where r: "r = Dir st es"
    using mkdir_parents_Dir by blast
  let ?c0 = "case map_of es x of None \<Rightarrow> new_dir now | Some c \<Rightarrow> c"
  from Cons.prems(1) r obtain c' where m: "mkdir_parents now ?c0 xs = Inr c'"
    and r': "r' = Dir st (AList.update x c' es)"
    by (auto split: sum.splits)
  show ?case
  proof (cases q)
    case Nil
    with Cons.prems r show ?thesis by auto
  next
    case (Cons y ys)
    show ?thesis
    proof (cases "y = x")
      case False
      with Cons.prems(2) show ?thesis
        by (simp add: r r' Cons AList.update_conv')
    next
      case True
      with Cons.prems(2) Cons r obtain c where c: "map_of es x = Some c"
        and l: "lookup c ys = Inr n"
        by (auto split: option.splits)
      from m c have "mkdir_parents now c xs = Inr c'" by simp
      then have "lookup c' ys = Inr n" using l Cons.prems(3) by (rule Cons.IH)
      then show ?thesis by (simp add: r' Cons True AList.update_conv')
    qed
  qed
qed

lemma mkdir_parents_makes:
  "mkdir_parents now r p = Inr r' \<Longrightarrow> \<exists>st es. lookup r' p = Inr (Dir st es)"
proof (induction p arbitrary: r r')
  case Nil
  then show ?case by (cases r) auto
next
  case (Cons x xs)
  from Cons.prems(1) obtain st es where r: "r = Dir st es"
    using mkdir_parents_Dir by blast
  let ?c0 = "case map_of es x of None \<Rightarrow> new_dir now | Some c \<Rightarrow> c"
  from Cons.prems(1) r obtain c' where m: "mkdir_parents now ?c0 xs = Inr c'"
    and r': "r' = Dir st (AList.update x c' es)"
    by (auto split: sum.splits)
  from m have "\<exists>st es. lookup c' xs = Inr (Dir st es)" by (rule Cons.IH)
  then show ?case by (simp add: r' AList.update_conv')
qed

lemma mkdir_parents_existing:
  "lookup r p = Inr (Dir st es) \<Longrightarrow> mkdir_parents now r p = Inr r"
proof (induction p arbitrary: r)
  case Nil
  then show ?case by (cases r) simp_all
next
  case (Cons x xs)
  then obtain st0 es0 where r: "r = Dir st0 es0" by (cases r) auto
  from Cons.prems r obtain c where c: "map_of es0 x = Some c"
    and l: "lookup c xs = Inr (Dir st es)"
    by (auto split: option.splits)
  from l have "mkdir_parents now c xs = Inr c" by (rule Cons.IH)
  with c show ?case by (simp add: r AList.update_triv)
qed

lemma lookup_new_dir: "q \<noteq> [] \<Longrightarrow> lookup (new_dir now) q = Inl FileNotFoundError"
  by (cases q) (simp_all add: new_dir_def)

lemma mkdir_parents_missing:
  "mkdir_parents now r p = Inr r' \<Longrightarrow> lookup r (p @ [x]) = Inl e \<Longrightarrow>
   \<exists>e'. lookup r' (p @ [x]) = Inl e'"
proof (induction p arbitrary: r r' e)
  case Nil
  then show ?case by (cases r) auto
next
  case (Cons y ys)
  from Cons.prems(1) obtain st es where r: "r = Dir st es"
    using mkdir_parents_Dir by blast
  let ?c0 = "case map_of es y of None \<Rightarrow> new_dir now | Some c \<Rightarrow> c"
  from Cons.prems(1) r obtain c' where m: "mkdir_parents now ?c0 ys = Inr c'"
    and r': "r' = Dir st (AList.update y c' es)"
    by (auto split: sum.splits)
  have "\<exists>e0. lookup ?c0 (ys @ [x]) = Inl e0"
  proof (cases "map_of es y")
    case None
    then show ?thesis by (simp add: lookup_new_dir)
  next
    case (Some c)
    with Cons.prems(2) r show ?thesis by simp
  qed
  then obtain e0 where "lookup ?c0 (ys @ [x]) = Inl e0" ..
  with m have "\<exists>e'. lookup c' (ys @ [x]) = Inl e'" by (rule Cons.IH)
  then show ?case by (simp add: r' AList.update_conv')
qed

lemma follow_lookup: "follow r k p = Inr (q, n) \<Longrightarrow> lookup r q = Inr n"
proof (induction k arbitrary: p)
  case 0
  then show ?case by (auto split: sum.splits node.splits)
next
  case (Suc k)
  then show ?case by (auto split: sum.splits node.splits)
qed

lemma follow_not_Symlink: "follow r k p = Inr (q, Symlink t st) \<Longrightarrow> False"
proof (induction k arbitrary: p)
  case 0
  then show ?case by (auto split: sum.splits node.splits)
next
  case (Suc k)
  then show ?case by (auto split: sum.splits node.splits)
qed

lemma lookup_not_Denied: "lookup r p = Inr Denied \<Longrightarrow> False"
  by (induction r p rule: lookup.induct) (auto split: option.splits)

lemma lookup_set_times_below:
  "q \<noteq> [] \<Longrightarrow> lookup (set_times n a m) q = lookup n q"
  by (cases n; cases q) simp_all

lemma lookup_retime_other:
  assumes l: "lookup r p = Inr n" and np: "\<not> prefix q p"
  shows "lookup (put_entry r p (set_times n a m)) q = lookup r q"
proof (cases "prefix p q")
  case False
  with np show ?thesis by (simp add: lookup_put_other)
next
  case True
  then obtain q' where q: "q = p @ q'" by (auto simp: prefix_def)
  with np have ne: "q' \<noteq> []" by auto
  from l have nd: "n \<noteq> Denied" using lookup_not_Denied by blast
  have "lookup (put_entry r p (set_times n a m)) p = lookup (set_times n a m) []"
    using l by (rule lookup_put_replace)
  also have "\<dots> = Inr (set_times n a m)" using nd by (cases n) simp_all
  finally have "lookup (put_entry r p (set_times n a m)) q = lookup (set_times n a m) q'"
    by (simp add: q lookup_append)
  also have "\<dots> = lookup n q'" using ne by (rule lookup_set_times_below)
  also have "\<dots> = lookup r q" using l by (simp add: q lookup_append)
  finally show ?thesis .
qed

lemma mkdir_parents_total:
  assumes "\<forall>q. prefix q p \<longrightarrow>
      lookup r q = Inl FileNotFoundError \<or> (\<exists>st es. lookup r q = Inr (Dir st es))"
  shows "\<exists>r'. mkdir_parents now r p = Inr r'"
  using assms
proof (induction p arbitrary: r)
  case Nil
  then have "lookup r [] = Inl FileNotFoundError \<or> (\<exists>st es. lookup r [] = Inr (Dir st es))"
    by simp
  then show ?case by (cases r) simp_all
next
  case (Cons x xs)
  from Cons.prems
  have "lookup r [] = Inl FileNotFoundError \<or> (\<exists>st es. lookup r [] = Inr (Dir st es))"
    by simp
  then obtain st es where r: "r = Dir st es" by (cases r) simp_all
  let ?c0 = "case map_of es x of None \<Rightarrow> new_dir now | Some c \<Rightarrow> c"
  have "\<forall>q. prefix q xs \<longrightarrow>
      lookup ?c0 q = Inl FileNotFoundError \<or> (\<exists>st es. lookup ?c0 q = Inr (Dir st es))"
  proof (intro allI impI)
    fix q
    assume q: "prefix q xs"
    show "lookup ?c0 q = Inl FileNotFoundError \<or> (\<exists>st es. lookup ?c0 q = Inr (Dir st es))"
    proof (cases "map_of es x")
      case None
      then show ?thesis by (cases q) (simp_all add: new_dir_def)
    next
      case (Some c)
      from q have "prefix (x # q) (x # xs)" by simp
      with Cons.prems
      have "lookup r (x # q) = Inl FileNotFoundError \<or>
          (\<exists>st es. lookup r (x # q) = Inr (Dir st es))"
        by blast
      with Some show ?thesis by (simp add: r)
    qed
  qed
  then obtain c' where "mkdir_parents now ?c0 xs = Inr c'"
    using Cons.IH by blast
  then show ?case by (simp add: r)
qed

lemma mkdir_parents_absent:
  "mkdir_parents now r p = Inr r' \<Longrightarrow> lookup r (p @ [x]) = Inl FileNotFoundError \<Longrightarrow>
   lookup r' (p @ [x]) = Inl FileNotFoundError"
proof (induction p arbitrary: r r')
  case Nil
  then show ?case by (cases r) auto
next
  case (Cons y ys)
  from Cons.prems(1) obtain st es where r: "r = Dir st es"
    using mkdir_parents_Dir by blast
  let ?c0 = "case map_of es y of None \<Rightarrow> new_dir now | Some c \<Rightarrow> c"
  from Cons.prems(1) r obtain c' where m: "mkdir_parents now ?c0 ys = Inr c'"
    and r': "r' = Dir st (AList.update y c' es)"
    by (auto split: sum.splits)
  have "lookup ?c0 (ys @ [x]) = Inl FileNotFoundError"
  proof (cases "map_of es y")
    case None
    then show ?thesis by (simp add: lookup_new_dir)
  next
    case (Some c)
    with Cons.prems(2) r show ?thesis by simp
  qed
  with m have "lookup c' (ys @ [x]) = Inl FileNotFoundError" by (rule Cons.IH)
  then show ?case by (simp add: r' AList.update_conv')
qed

section \<open>Relocation\<close>

lemma file_not_above:
  assumes "lookup r fp = Inr (File b st)" and "lookup r q = Inr n" and "prefix fp q"
  shows "q = fp"
proof (rule ccontr)
  assume "q \<noteq> fp"
  with assms(3) obtain q' where q: "q = fp @ q'" and "q' \<noteq> []"
    by (auto simp: prefix_def)
  with assms(2) obtain st' es' where "lookup r fp = Inr (Dir st' es')"
    using lookup_below by blast
  with assms(1) show False by simp
qed

lemma prefix_butlast: "prefix p q \<Longrightarrow> p \<noteq> q \<Longrightarrow> prefix p (butlast q)"
  by (metis butlast_append prefix_def append_Nil2 prefixI)

lemma file_not_prefix_of_child:
  assumes f: "lookup r fp = Inr (File b st)" and d: "lookup r (butlast bp) = Inr (Dir st' es')"
    and ne: "fp \<noteq> bp"
  shows "\<not> prefix fp bp"
proof
  assume "prefix fp bp"
  with ne have "prefix fp (butlast bp)" by (simp add: prefix_butlast)
  with f d have "butlast bp = fp" by (rule file_not_above)
  with f d show False by simp
qed

lemma above_file_is_dir:
  assumes f: "lookup r fp = Inr (File b st)" and p: "prefix bp fp" and ne: "fp \<noteq> bp"
  shows "os_path_isdir r bp"
proof -
  from p ne obtain q' where q: "fp = bp @ q'" and "q' \<noteq> []"
    by (auto simp: prefix_def)
  with f obtain st' es' where l: "lookup r bp = Inr (Dir st' es')"
    using lookup_below by blast
  show ?thesis by (simp add: os_path_isdir_def follow_Dir [OF l])
qed

lemma os_rename_file:
  assumes f: "lookup r fp = Inr (File b st)" and mv: "os_rename r fp dst = Inr r2"
    and ne: "fp \<noteq> dst"
  shows "r2 = put_entry (remove_entry r fp) dst (File b st)"
    and "\<exists>st' es'. lookup r (butlast dst) = Inr (Dir st' es')"
    and "fp \<noteq> []" and "dst \<noteq> []"
proof -
  from mv f obtain d where d: "lookup r (butlast dst) = Inr d"
    by (auto simp: os_rename_def split: sum.splits)
  from mv f d ne have dd: "is_Dir d"
    by (auto simp: os_rename_def split: if_splits)
  then show "\<exists>st' es'. lookup r (butlast dst) = Inr (Dir st' es')"
    using d by (cases d) auto
  from mv f d ne dd show "fp \<noteq> []" and "dst \<noteq> []"
    by (auto simp: os_rename_def split: if_splits)
  from mv f d ne dd show "r2 = put_entry (remove_entry r fp) dst (File b st)"
    by (auto simp: os_rename_def split: if_splits sum.splits)
qed

lemma relocate_plain:
  assumes f: "lookup r1 fp = Inr (File b st)"
    and nodir: "\<not> os_path_isdir r1 bp"
    and mv: "shutil_move r1 fp bp = Inr r2"
    and ln: "os_symlink now r2 bp fp = Inr r3"
    and ut: "os_utime r3 bp (st_atime st) (st_mtime st) = Inr r4"
    and ul: "os_utime_nofollow r4 fp (st_atime st) (st_mtime st) = Inr r5"
  shows "lookup r5 fp =
      Inr (Symlink bp \<lparr>st_size = length (path_str bp), st_atime = st_atime st,
                       st_mtime = st_mtime st\<rparr>)"
    and "lookup r5 bp = Inr (File b st)"
proof -
  let ?F = "File b st"
  let ?L = "Symlink bp \<lparr>st_size = length (path_str bp), st_atime = now, st_mtime = now\<rparr>"
  let ?L' = "Symlink bp \<lparr>st_size = length (path_str bp), st_atime = st_atime st,
                       st_mtime = st_mtime st\<rparr>"
  from mv nodir have rn: "os_rename r1 fp bp = Inr r2" by (simp add: shutil_move_def)
  have ne: "fp \<noteq> bp"
  proof
    assume e: "fp = bp"
    with rn f have "r2 = r1" by (auto simp: os_rename_def split: sum.splits if_splits)
    with ln f e show False by (simp add: os_symlink_def)
  qed
  from f rn ne have r2: "r2 = put_entry (remove_entry r1 fp) bp ?F"
    and "\<exists>st' es'. lookup r1 (butlast bp) = Inr (Dir st' es')"
    and fne: "fp \<noteq> []" and bne: "bp \<noteq> []"
    by (rule os_rename_file)+
  then obtain st' es' where par: "lookup r1 (butlast bp) = Inr (Dir st' es')" by blast
  from f par ne have n1: "\<not> prefix fp bp" by (rule file_not_prefix_of_child)
  have n2: "\<not> prefix bp fp"
  proof
    assume "prefix bp fp"
    with f have "os_path_isdir r1 bp" using ne by (rule above_file_is_dir)
    with nodir show False ..
  qed
  from n1 have n3: "\<not> prefix fp (butlast bp)"
    by (metis prefix_order.dual_order.trans prefixeq_butlast)
  from par n3 obtain es2 where "lookup (remove_entry r1 fp) (butlast bp) = Inr (Dir st' es2)"
    using remove_keeps_Dir by blast
  with bne have b2: "lookup r2 bp = Inr ?F"
    by (simp add: r2 lookup_put_same)
  have b3: "lookup r3 bp = Inr ?F" and l3: "lookup r3 fp = Inr ?L"
  proof -
    from ln obtain d where d: "lookup r2 (butlast fp) = Inr d" and dd: "is_Dir d"
      and r3: "r3 = put_entry r2 fp ?L"
      by (auto simp: os_symlink_def split: sum.splits if_splits)
    from d dd obtain st2 es2 where "lookup r2 (butlast fp) = Inr (Dir st2 es2)"
      by (cases d) auto
    with fne show "lookup r3 fp = Inr ?L" by (simp add: r3 lookup_put_same)
    from n1 n2 b2 show "lookup r3 bp = Inr ?F" by (simp add: r3 lookup_put_other)
  qed
  have r4: "r4 = put_entry r3 bp ?F"
    using ut by (simp add: os_utime_def follow_File [OF b3])
  have b4: "lookup r4 bp = Inr ?F"
    using lookup_put_replace [OF b3] by (simp add: r4)
  have l4: "lookup r4 fp = Inr ?L"
    using n1 n2 l3 by (simp add: r4 lookup_put_other)
  have r5: "r5 = put_entry r4 fp ?L'"
    using ul by (simp add: os_utime_nofollow_def l4)
  show "lookup r5 fp = Inr ?L'"
    using lookup_put_replace [OF l4] by (simp add: r5)
  show "lookup r5 bp = Inr ?F"
    using n1 n2 b4 by (simp add: r5 lookup_put_other)
qed

lemma not_prefix_butlast: "\<not> prefix p q \<Longrightarrow> \<not> prefix p (butlast q)"
  by (metis prefix_order.dual_order.trans prefixeq_butlast)

lemma not_prefix_shorter: "q \<noteq> [] \<Longrightarrow> \<not> prefix q (butlast q)"
  by (metis append_butlast_last_id append_self_conv prefix_order.antisym prefixeq_butlast not_Cons_self2)

lemma relocate_into_dir:
  assumes f: "lookup r1 fp = Inr (File b st)"
    and isdir: "os_path_isdir r1 bp"
    and mv: "shutil_move r1 fp bp = Inr r2"
    and ln: "os_symlink now r2 bp fp = Inr r3"
    and ut: "os_utime r3 bp a m = Inr r4"
    and ul: "os_utime_nofollow r4 fp a m = Inr r5"
  shows "lookup r5 fp =
      Inr (Symlink bp \<lparr>st_size = length (path_str bp), st_atime = a, st_mtime = m\<rparr>)"
    and "\<exists>st' es'. lookup r5 bp = Inr (Dir (st'\<lparr>st_atime := a, st_mtime := m\<rparr>) es')"
    and "lookup r5 (bp @ [last fp]) = Inr (File b st)"
proof -
  let ?F = "File b st"
  let ?L = "Symlink bp \<lparr>st_size = length (path_str bp), st_atime = now, st_mtime = now\<rparr>"
  let ?L' = "Symlink bp \<lparr>st_size = length (path_str bp), st_atime = a, st_mtime = m\<rparr>"
  let ?rd = "bp @ [last fp]"
  from isdir obtain q st0 es0 where fq: "follow r1 max_links bp = Inr (q, Dir st0 es0)"
    by (auto simp: os_path_isdir_def split: sum.splits prod.splits node.splits)
  then have lq: "lookup r1 q = Inr (Dir st0 es0)" by (rule follow_lookup)
  have ff: "follow r1 max_links fp = Inr (fp, ?F)" using f by (rule follow_File)
  have ns: "\<not> samefile r1 fp bp"
    using f lq by (auto simp: samefile_def ff fq)
  have ex: "os_path_exists r1 fp" by (simp add: os_path_exists_def ff)
  from mv isdir ns have fne: "fp \<noteq> []" and nex: "\<not> os_path_exists r1 ?rd"
    and rn: "os_rename r1 fp ?rd = Inr r2"
    by (auto simp: shutil_move_def split: if_splits)
  from ex nex have ne: "fp \<noteq> ?rd" by auto
  from f rn ne have r2: "r2 = put_entry (remove_entry r1 fp) ?rd ?F"
    and "\<exists>st' es'. lookup r1 (butlast ?rd) = Inr (Dir st' es')"
    by (rule os_rename_file)+
  then obtain st1 es1 where b1: "lookup r1 bp = Inr (Dir st1 es1)" by auto
  then have par1: "lookup r1 (butlast ?rd) = Inr (Dir st1 es1)" by simp
  from f par1 ne have n0: "\<not> prefix fp ?rd" by (rule file_not_prefix_of_child)
  then have n1: "\<not> prefix fp bp" by (metis prefix_order.trans prefixI)
  from b1 n1 obtain es1' where a1: "lookup (remove_entry r1 fp) bp = Inr (Dir st1 es1')"
    using remove_keeps_Dir by blast
  then have "lookup (remove_entry r1 fp) (butlast ?rd) = Inr (Dir st1 es1')" by simp
  then have d2: "lookup r2 ?rd = Inr ?F"
    by (simp add: r2 lookup_put_same)
  have n2: "\<not> prefix ?rd fp"
  proof
    assume "prefix ?rd fp"
    with f have "os_path_isdir r1 ?rd" using ne by (rule above_file_is_dir)
    with nex show False
      by (auto simp: os_path_isdir_def os_path_exists_def split: sum.splits)
  qed
  have n3: "\<not> prefix ?rd bp" by (simp add: prefix_def)
  with a1 obtain es2 where b2: "lookup r2 bp = Inr (Dir st1 es2)"
    unfolding r2 using put_keeps_Dir by blast
  from ln obtain d where d: "lookup r2 (butlast fp) = Inr d" and dd: "is_Dir d"
    and r3: "r3 = put_entry r2 fp ?L"
    by (auto simp: os_symlink_def split: sum.splits if_splits)
  from d dd obtain st2 es2' where "lookup r2 (butlast fp) = Inr (Dir st2 es2')"
    by (cases d) auto
  with fne have l3: "lookup r3 fp = Inr ?L" by (simp add: r3 lookup_put_same)
  from b2 n1 obtain es3 where b3: "lookup r3 bp = Inr (Dir st1 es3)"
    unfolding r3 using put_keeps_Dir by blast
  have r4: "r4 = put_entry r3 bp (set_times (Dir st1 es3) a m)"
    using ut by (simp add: os_utime_def follow_Dir [OF b3])
  have b4: "lookup r4 bp = Inr (Dir (st1\<lparr>st_atime := a, st_mtime := m\<rparr>) es3)"
    using lookup_put_replace [OF b3] by (simp add: r4)
  have l4: "lookup r4 fp = Inr ?L"
    unfolding r4 using lookup_retime_other [OF b3 n1] l3 by simp
  have r5: "r5 = put_entry r4 fp ?L'"
    using ul by (simp add: os_utime_nofollow_def l4)
  show "lookup r5 fp = Inr ?L'"
    using lookup_put_replace [OF l4] by (simp add: r5)
  from b4 n1 show "\<exists>st' es'. lookup r5 bp = Inr (Dir (st'\<lparr>st_atime := a, st_mtime := m\<rparr>) es')"
    unfolding r5 using put_keeps_Dir by blast
  have "lookup r3 ?rd = Inr ?F"
    using n0 n2 d2 by (simp add: r3 lookup_put_other)
  then have "lookup r4 ?rd = Inr ?F"
    unfolding r4 using lookup_retime_other [OF b3 n3] by simp
  then show "lookup r5 ?rd = Inr ?F"
    using n0 n2 by (simp add: r5 lookup_put_other)
qed

lemma move_large_file_Returned:
  assumes "move_large_file v fp = Returned v'"
  obtains rel r1 stat r2 r3 r4 r5 where
    "relative_to fp (repo_dir v) = Some rel"
    "mkdir_parents (clock v) (fs v) (butlast (backup_dir v @ rel)) = Inr r1"
    "os_stat r1 fp = Inr stat"
    "shutil_move r1 fp (backup_dir v @ rel) = Inr r2"
    "os_symlink (clock v) r2 (backup_dir v @ rel) fp = Inr r3"
    "os_utime r3 (backup_dir v @ rel) (st_atime stat) (st_mtime stat) = Inr r4"
    "os_utime_nofollow r4 fp (st_atime stat) (st_mtime stat) = Inr r5"
    "v' = v\<lparr>fs := r5, issues := issues v @
            [Moved (size_mb_of stat) rel (backup_dir v @ rel)]\<rparr>"
proof -
  from assms obtain rel where rel: "relative_to fp (repo_dir v) = Some rel"
    by (cases "relative_to fp (repo_dir v)") (simp_all add: move_large_file_def)
  let ?bp = "backup_dir v @ rel"
  from assms rel obtain r1 where r1: "mkdir_parents (clock v) (fs v) (butlast ?bp) = Inr r1"
    by (cases "mkdir_parents (clock v) (fs v) (butlast ?bp)")
      (simp_all add: move_large_file_def Let_def)
  from assms rel r1 obtain stat where st: "os_stat r1 fp = Inr stat"
    by (cases "os_stat r1 fp") (simp_all add: move_large_file_def Let_def)
  from assms rel r1 st obtain r2 where r2: "shutil_move r1 fp ?bp = Inr r2"
    by (cases "shutil_move r1 fp ?bp") (simp_all add: move_large_file_def Let_def)
  from assms rel r1 st r2 obtain r3 where r3: "os_symlink (clock v) r2 ?bp fp = Inr r3"
    by (cases "os_symlink (clock v) r2 ?bp fp") (simp_all add: move_large_file_def Let_def)
  from assms rel r1 st r2 r3 obtain r4
    where r4: "os_utime r3 ?bp (st_atime stat) (st_mtime stat) = Inr r4"
    by (cases "os_utime r3 ?bp (st_atime stat) (st_mtime stat)")
      (simp_all add: move_large_file_def Let_def)
  from assms rel r1 st r2 r3 r4 obtain r5
    where r5: "os_utime_nofollow r4 fp (st_atime stat) (st_mtime stat) = Inr r5"
    by (cases "os_utime_nofollow r4 fp (st_atime stat) (st_mtime stat)")
      (simp_all add: move_large_file_def Let_def)
  from assms rel r1 st r2 r3 r4 r5
  have "v' = v\<lparr>fs := r5, issues := issues v @ [Moved (size_mb_of stat) rel ?bp]\<rparr>"
    by (simp add: move_large_file_def Let_def)
  with rel r1 st r2 r3 r4 r5 show ?thesis by (rule that)
qed

lemma os_stat_File: "lookup r p = Inr (File b st) \<Longrightarrow> os_stat r p = Inr st"
  by (simp add: os_stat_def follow_File)

lemma isdir_after_mkdir:
  assumes mk: "mkdir_parents now r (butlast bp) = Inr r1"
    and nd: "\<not> os_path_isdir r bp"
  shows "\<not> os_path_isdir r1 bp"
proof (cases "lookup r bp")
  case (Inr n)
  have "\<exists>st es. lookup r (butlast bp) = Inr (Dir st es)"
  proof (cases "bp = []")
    case True
    from mk obtain st es where "r = Dir st es" using mkdir_parents_Dir by blast
    with True show ?thesis by simp
  next
    case False
    with Inr have "lookup r (butlast bp @ [last bp]) = Inr n" by simp
    then show ?thesis using lookup_below by blast
  qed
  then obtain st es where "lookup r (butlast bp) = Inr (Dir st es)" by blast
  then have "mkdir_parents now r (butlast bp) = Inr r" by (rule mkdir_parents_existing)
  with mk have "r1 = r" by simp
  with nd show ?thesis by simp
next
  case (Inl e)
  have ne: "bp \<noteq> []"
  proof
    assume "bp = []"
    moreover from mk obtain st es where "r = Dir st es" using mkdir_parents_Dir by blast
    ultimately show False using Inl by simp
  qed
  with Inl have "lookup r (butlast bp @ [last bp]) = Inl e" by simp
  with mk have "\<exists>e'. lookup r1 (butlast bp @ [last bp]) = Inl e'"
    by (rule mkdir_parents_missing)
  with ne obtain e' where "lookup r1 bp = Inl e'" by auto
  then show ?thesis by (simp add: os_path_isdir_def follow_Inl)
qed

text \<open>
  A regular file \<open>fp\<close> of the repository with nothing at its backup destination, and
  nothing but directories on the way to it, is relocated: every step of
  \<^verbatim>\<open>move_large_file\<close> goes through, the missing backup directories being made.
\<close>

lemma relocation_succeeds:
  assumes f: "lookup (fs v) fp = Inr (File b st)"
    and rel: "relative_to fp (repo_dir v) = Some rel"
    and way: "\<forall>q. prefix q (butlast (backup_dir v @ rel)) \<longrightarrow>
        lookup (fs v) q = Inl FileNotFoundError \<or>
        (\<exists>st' es'. lookup (fs v) q = Inr (Dir st' es'))"
    and free: "lookup (fs v) (backup_dir v @ rel) = Inl FileNotFoundError"
  shows "\<exists>v'. move_large_file v fp = Returned v'"
proof -
  let ?bp = "backup_dir v @ rel"
  let ?F = "File b st"
  let ?L = "Symlink ?bp \<lparr>st_size = length (path_str ?bp), st_atime = clock v,
      st_mtime = clock v\<rparr>"
  from way obtain r1 where mk: "mkdir_parents (clock v) (fs v) (butlast ?bp) = Inr r1"
    using mkdir_parents_total by blast
  from way have "lookup (fs v) [] = Inl FileNotFoundError \<or>
      (\<exists>st' es'. lookup (fs v) [] = Inr (Dir st' es'))" by simp
  then obtain st0 es0 where root: "fs v = Dir st0 es0" by (cases "fs v") simp_all
  with free have bne: "?bp \<noteq> []" by auto
  from f root have fne: "fp \<noteq> []" by auto
  from mk f have f1: "lookup r1 fp = Inr ?F" by (rule mkdir_parents_keeps) simp
  then have st: "os_stat r1 fp = Inr st" by (rule os_stat_File)
  from mk obtain st1 es1 where par: "lookup r1 (butlast ?bp) = Inr (Dir st1 es1)"
    using mkdir_parents_makes by blast
  from free bne have "lookup (fs v) (butlast ?bp @ [last ?bp]) = Inl FileNotFoundError"
    by simp
  with mk have "lookup r1 (butlast ?bp @ [last ?bp]) = Inl FileNotFoundError"
    by (rule mkdir_parents_absent)
  with bne have b1: "lookup r1 ?bp = Inl FileNotFoundError" by simp
  then have nd: "\<not> os_path_isdir r1 ?bp" by (simp add: os_path_isdir_def follow_Inl)
  from f1 b1 have ne: "fp \<noteq> ?bp" by auto
  let ?r2 = "put_entry (remove_entry r1 fp) ?bp ?F"
  have mv: "shutil_move r1 fp ?bp = Inr ?r2"
    using nd f1 par ne fne bne b1 by (simp add: shutil_move_def os_rename_def)
  from f1 par ne have n1: "\<not> prefix fp ?bp" by (rule file_not_prefix_of_child)
  have n2: "\<not> prefix ?bp fp"
  proof
    assume "prefix ?bp fp"
    with f1 have "os_path_isdir r1 ?bp" using ne by (rule above_file_is_dir)
    with nd show False ..
  qed
  from fne f1 have "lookup r1 (butlast fp @ [last fp]) = Inr ?F" by simp
  then obtain st2 es2 where fpar: "lookup r1 (butlast fp) = Inr (Dir st2 es2)"
    using lookup_below by blast
  with fne have "lookup (remove_entry r1 fp) fp = Inl FileNotFoundError"
    by (rule lookup_remove_same)
  with n1 n2 have l2: "lookup ?r2 fp = Inl FileNotFoundError"
    by (simp add: lookup_put_other)
  from fne have n3: "\<not> prefix fp (butlast fp)" by (rule not_prefix_shorter)
  with fpar obtain es3 where "lookup (remove_entry r1 fp) (butlast fp) = Inr (Dir st2 es3)"
    using remove_keeps_Dir by blast
  moreover from n2 have "\<not> prefix ?bp (butlast fp)" by (rule not_prefix_butlast)
  ultimately obtain es4 where p2: "lookup ?r2 (butlast fp) = Inr (Dir st2 es4)"
    using put_keeps_Dir by blast
  let ?r3 = "put_entry ?r2 fp ?L"
  have ln: "os_symlink (clock v) ?r2 ?bp fp = Inr ?r3"
    using l2 p2 by (simp add: os_symlink_def)
  from f1 nd mv ln have "\<exists>r4. os_utime ?r3 ?bp (st_atime st) (st_mtime st) = Inr r4"
  proof -
    from n1 have n4: "\<not> prefix fp (butlast ?bp)" by (rule not_prefix_butlast)
    from par n4 obtain es5 where "lookup (remove_entry r1 fp) (butlast ?bp) = Inr (Dir st1 es5)"
      using remove_keeps_Dir by blast
    with bne have "lookup ?r2 ?bp = Inr ?F" by (simp add: lookup_put_same)
    with n1 n2 have "lookup ?r3 ?bp = Inr ?F" by (simp add: lookup_put_other)
    then show ?thesis by (simp add: os_utime_def follow_File)
  qed
  then obtain r4 where ut: "os_utime ?r3 ?bp (st_atime st) (st_mtime st) = Inr r4" ..
  have "\<exists>r5. os_utime_nofollow r4 fp (st_atime st) (st_mtime st) = Inr r5"
  proof -
    have "lookup ?r3 fp = Inr ?L" using fne p2 by (simp add: lookup_put_same)
    moreover have "lookup ?r3 ?bp = Inr ?F"
    proof -
      from n1 have n4: "\<not> prefix fp (butlast ?bp)" by (rule not_prefix_butlast)
      from par n4 obtain es5 where "lookup (remove_entry r1 fp) (butlast ?bp) = Inr (Dir st1 es5)"
        using remove_keeps_Dir by blast
      with bne have "lookup ?r2 ?bp = Inr ?F" by (simp add: lookup_put_same)
      with n1 n2 show ?thesis by (simp add: lookup_put_other)
    qed
    ultimately have "lookup r4 fp = Inr ?L"
      using ut n1 n2 by (auto simp: os_utime_def follow_File lookup_put_other)
    then show ?thesis by (simp add: os_utime_nofollow_def)
  qed
  then obtain r5 where ul: "os_utime_nofollow r4 fp (st_atime st) (st_mtime st) = Inr r5" ..
  show ?thesis
    using rel mk st mv ln ut ul by (simp add: move_large_file_def Let_def)
qed

text \<open>
  What such a relocation leaves: every directory on the way to the backup destination
  exists; the file, with its content and the stat taken before the move, is at the
  destination, which is the backup directory followed by the path of \<open>fp\<close> relative
  to the repository; the entry at \<open>fp\<close> is a link to the destination that carries the
  access and modification times of that stat itself; and the move is entered in the
  issues.
\<close>

lemma relocation_to_free_destination:
  assumes f: "lookup (fs v) fp = Inr (File b st)"
    and rel: "relative_to fp (repo_dir v) = Some rel"
    and way: "\<forall>q. prefix q (butlast (backup_dir v @ rel)) \<longrightarrow>
        lookup (fs v) q = Inl FileNotFoundError \<or>
        (\<exists>st' es'. lookup (fs v) q = Inr (Dir st' es'))"
    and free: "lookup (fs v) (backup_dir v @ rel) = Inl FileNotFoundError"
  shows "\<exists>v'. move_large_file v fp = Returned v' \<and>
     (\<forall>q. prefix q (butlast (backup_dir v @ rel)) \<longrightarrow>
        (\<exists>st' es'. lookup (fs v') q = Inr (Dir st' es'))) \<and>
     lookup (fs v') (backup_dir v @ rel) = Inr (File b st) \<and>
     lookup (fs v') fp =
       Inr (Symlink (backup_dir v @ rel)
              \<lparr>st_size = length (path_str (backup_dir v @ rel)),
                st_atime = st_atime st, st_mtime = st_mtime st\<rparr>) \<and>
     issues v' = issues v @ [Moved (size_mb_of st) rel (backup_dir v @ rel)]"
proof -
  let ?bp = "backup_dir v @ rel"
  from f rel way free obtain v' where ok: "move_large_file v fp = Returned v'"
    using relocation_succeeds by blast
  from ok obtain rel' r1 stat r2 r3 r4 r5 where
    rel': "relative_to fp (repo_dir v) = Some rel'"
    and mk: "mkdir_parents (clock v) (fs v) (butlast (backup_dir v @ rel')) = Inr r1"
    and stat: "os_stat r1 fp = Inr stat"
    and mv: "shutil_move r1 fp (backup_dir v @ rel') = Inr r2"
    and ln: "os_symlink (clock v) r2 (backup_dir v @ rel') fp = Inr r3"
    and ut: "os_utime r3 (backup_dir v @ rel') (st_atime stat) (st_mtime stat) = Inr r4"
    and ul: "os_utime_nofollow r4 fp (st_atime stat) (st_mtime stat) = Inr r5"
    and v': "v' = v\<lparr>fs := r5, issues := issues v @
            [Moved (size_mb_of stat) rel' (backup_dir v @ rel')]\<rparr>"
    by (rule move_large_file_Returned)
  from rel rel' have e: "rel' = rel" by simp
  from mk f have f1: "lookup r1 fp = Inr (File b st)"
    by (rule mkdir_parents_keeps) simp
  with stat have s: "stat = st" by (simp add: os_stat_File)
  from free have "\<not> os_path_isdir (fs v) ?bp"
    by (simp add: os_path_isdir_def follow_Inl)
  with mk have nd1: "\<not> os_path_isdir r1 ?bp"
    unfolding e by (rule isdir_after_mkdir)
  from f1 nd1 have l5: "lookup r5 fp =
      Inr (Symlink ?bp \<lparr>st_size = length (path_str ?bp),
             st_atime = st_atime st, st_mtime = st_mtime st\<rparr>)"
    using mv ln ut ul unfolding s e by (rule relocate_plain(1))
  from f1 nd1 have b5: "lookup r5 ?bp = Inr (File b st)"
    using mv ln ut ul unfolding s e by (rule relocate_plain(2))
  have d5: "\<exists>st' es'. lookup r5 q = Inr (Dir st' es')" if q: "prefix q (butlast ?bp)" for q
  proof -
    from q have "prefix q ?bp" by (metis prefix_order.trans prefixeq_butlast)
    then obtain q' where p: "?bp = q @ q'" by (auto simp: prefix_def)
    have "q' \<noteq> []"
    proof
      assume "q' = []"
      with p have "q = ?bp" by simp
      with q have "prefix ?bp (butlast ?bp)" by simp
      moreover from free have "?bp \<noteq> []" by (cases "fs v") auto
      ultimately show False using not_prefix_shorter by blast
    qed
    from b5 p have "lookup r5 (q @ q') = Inr (File b st)" by simp
    then show ?thesis using \<open>q' \<noteq> []\<close> by (rule lookup_below)
  qed
  have "fs v' = r5" by (simp add: v')
  with ok l5 b5 d5 show ?thesis by (simp add: v' s e)
qed


lemma follow_numeral:
  "follow r (numeral k) p =
     (case lookup r p of
        Inl e \<Rightarrow> Inl e
      | Inr n \<Rightarrow> (case n of Symlink t st \<Rightarrow> follow r (pred_numeral k) t | _ \<Rightarrow> Inr (p, n)))"
  by (simp add: numeral_eq_Suc split: sum.split node.split)

lemmas os_defs = relative_to_def new_dir_def os_stat_def max_links_def follow_numeral
  shutil_move_def os_path_isdir_def os_path_exists_def samefile_def os_rename_def
  os_symlink_def path_str_def os_utime_def os_utime_nofollow_def size_mb_of_def
  stat_of_size_def

lemma fresh_relocation:
  "move_large_file fresh_validator [''repo'', ''a.bin''] = Returned fresh_relocated"
  by (simp add: move_large_file_def fresh_validator_def fresh_world_def fresh_relocated_def
      GitHubValidator_init_def os_defs Let_def)

lemma taken_relocation:
  "move_large_file taken_validator [''repo'', ''a.bin''] = Returned taken_relocated"
  by (simp add: move_large_file_def taken_validator_def taken_world_def taken_relocated_def
      GitHubValidator_init_def os_defs Let_def)


text \<open>
  The round trip where the backup destination is not an existing directory. When
  \<^verbatim>\<open>move_large_file\<close> returns for a regular file \<open>fp\<close> with content \<open>b\<close> and
  stat \<open>st\<close>: reading through \<open>fp\<close> yields \<open>b\<close>; \<^verbatim>\<open>stat\<close> of \<open>fp\<close>
  (through the link) is \<open>st\<close>; the link at \<open>fp\<close> itself carries the access and
  modification times of \<open>st\<close>; and the backup destination holds \<open>b\<close> with stat
  \<open>st\<close>.
\<close>

theorem relocation_round_trip:
  assumes f: "lookup (fs v) fp = Inr (File b st)"
    and rel: "relative_to fp (repo_dir v) = Some rel"
    and nd: "\<not> os_path_isdir (fs v) (backup_dir v @ rel)"
    and ok: "move_large_file v fp = Returned v'"
  shows "read_bytes (fs v') fp = Inr b \<and>
     os_stat (fs v') fp = Inr st \<and>
     (\<exists>lst. lookup (fs v') fp = Inr (Symlink (backup_dir v @ rel) lst) \<and>
        st_atime lst = st_atime st \<and> st_mtime lst = st_mtime st) \<and>
     read_bytes (fs v') (backup_dir v @ rel) = Inr b \<and>
     os_stat (fs v') (backup_dir v @ rel) = Inr st"
proof -
  from ok obtain rel' r1 stat r2 r3 r4 r5 where
    rel': "relative_to fp (repo_dir v) = Some rel'"
    and mk: "mkdir_parents (clock v) (fs v) (butlast (backup_dir v @ rel')) = Inr r1"
    and stat: "os_stat r1 fp = Inr stat"
    and mv: "shutil_move r1 fp (backup_dir v @ rel') = Inr r2"
    and ln: "os_symlink (clock v) r2 (backup_dir v @ rel') fp = Inr r3"
    and ut: "os_utime r3 (backup_dir v @ rel') (st_atime stat) (st_mtime stat) = Inr r4"
    and ul: "os_utime_nofollow r4 fp (st_atime stat) (st_mtime stat) = Inr r5"
    and v': "v' = v\<lparr>fs := r5, issues := issues v @
            [Moved (size_mb_of stat) rel' (backup_dir v @ rel')]\<rparr>"
    by (rule move_large_file_Returned)
  from rel rel' have e: "rel' = rel" by simp
  let ?bp = "backup_dir v @ rel"
  let ?lst = "\<lparr>st_size = length (path_str ?bp), st_atime = st_atime st,
      st_mtime = st_mtime st\<rparr>"
  from mk f have f1: "lookup r1 fp = Inr (File b st)"
    by (rule mkdir_parents_keeps) simp
  with stat have s: "stat = st" by (simp add: os_stat_File)
  from mk nd have nd1: "\<not> os_path_isdir r1 ?bp"
    unfolding e by (rule isdir_after_mkdir)
  from f1 nd1 have l5: "lookup r5 fp = Inr (Symlink ?bp ?lst)"
    using mv ln ut ul unfolding s e by (rule relocate_plain(1))
  from f1 nd1 have b5: "lookup r5 ?bp = Inr (File b st)"
    using mv ln ut ul unfolding s e by (rule relocate_plain(2))
  have fb: "follow r5 k ?bp = Inr (?bp, File b st)" for k
    using b5 by (rule follow_File)
  have ff: "follow r5 max_links fp = Inr (?bp, File b st)"
    unfolding max_links_def by (simp add: follow_Symlink [OF l5] fb)
  have "fs v' = r5" by (simp add: v')
  then show ?thesis
    by (simp add: read_bytes_def os_stat_def ff fb l5)
qed

text \<open>
  The round trip of \<^verbatim>\<open>/repo/a.bin\<close> with no backup directory yet.
\<close>

theorem relocation_round_trip_witness:
  "lookup (fs fresh_validator) [''repo'', ''a.bin''] =
     Inr (File ''x'' \<lparr>st_size = 157286400, st_atime = 11, st_mtime = 7\<rparr>) \<and>
   relative_to [''repo'', ''a.bin''] (repo_dir fresh_validator) = Some [''a.bin''] \<and>
   \<not> os_path_isdir (fs fresh_validator) (backup_dir fresh_validator @ [''a.bin'']) \<and>
   move_large_file fresh_validator [''repo'', ''a.bin''] = Returned fresh_relocated \<and>
   read_bytes (fs fresh_relocated) [''repo'', ''a.bin''] = Inr ''x'' \<and>
   os_stat (fs fresh_relocated) [''repo'', ''a.bin''] =
     Inr \<lparr>st_size = 157286400, st_atime = 11, st_mtime = 7\<rparr> \<and>
   (\<exists>lst. lookup (fs fresh_relocated) [''repo'', ''a.bin''] =
        Inr (Symlink (backup_dir fresh_validator @ [''a.bin'']) lst) \<and>
      st_atime lst = 11 \<and> st_mtime lst = 7) \<and>
   read_bytes (fs fresh_relocated) (backup_dir fresh_validator @ [''a.bin'']) = Inr ''x'' \<and>
   os_stat (fs fresh_relocated) (backup_dir fresh_validator @ [''a.bin'']) =
     Inr \<lparr>st_size = 157286400, st_atime = 11, st_mtime = 7\<rparr>"
proof -
  have f: "lookup (fs fresh_validator) [''repo'', ''a.bin''] =
     Inr (File ''x'' \<lparr>st_size = 157286400, st_atime = 11, st_mtime = 7\<rparr>)"
    by (simp add: fresh_validator_def fresh_world_def GitHubValidator_init_def)
  have rel: "relative_to [''repo'', ''a.bin''] (repo_dir fresh_validator) = Some [''a.bin'']"
    by (simp add: fresh_validator_def GitHubValidator_init_def relative_to_def)
  have nd: "\<not> os_path_isdir (fs fresh_validator) (backup_dir fresh_validator @ [''a.bin''])"
    by (simp add: fresh_validator_def fresh_world_def GitHubValidator_init_def
        os_path_isdir_def max_links_def follow_numeral)
  note ok = fresh_relocation
  from f rel nd ok relocation_round_trip [OF f rel nd ok] show ?thesis by simp
qed

text \<open>
  Where the backup destination is an existing directory and \<^verbatim>\<open>move_large_file\<close>
  returns: the file is inside that directory under its own name; the captured times are
  on the directory; the entry at \<open>fp\<close> is a link to the directory, and reading through
  it raises \<^verbatim>\<open>IsADirectoryError\<close>.
\<close>

lemma relocation_into_existing_directory:
  assumes f: "lookup (fs v) fp = Inr (File b st)"
    and rel: "relative_to fp (repo_dir v) = Some rel"
    and isdir: "os_path_isdir (fs v) (backup_dir v @ rel)"
    and ok: "move_large_file v fp = Returned v'"
  shows "lookup (fs v') (backup_dir v @ rel @ [last fp]) = Inr (File b st) \<and>
     (\<exists>st' es'. lookup (fs v') (backup_dir v @ rel) =
        Inr (Dir (st'\<lparr>st_atime := st_atime st, st_mtime := st_mtime st\<rparr>) es')) \<and>
     (\<exists>lst. lookup (fs v') fp = Inr (Symlink (backup_dir v @ rel) lst)) \<and>
     read_bytes (fs v') fp = Inl IsADirectoryError"
proof -
  from ok obtain rel' r1 stat r2 r3 r4 r5 where
    rel': "relative_to fp (repo_dir v) = Some rel'"
    and mk: "mkdir_parents (clock v) (fs v) (butlast (backup_dir v @ rel')) = Inr r1"
    and stat: "os_stat r1 fp = Inr stat"
    and mv: "shutil_move r1 fp (backup_dir v @ rel') = Inr r2"
    and ln: "os_symlink (clock v) r2 (backup_dir v @ rel') fp = Inr r3"
    and ut: "os_utime r3 (backup_dir v @ rel') (st_atime stat) (st_mtime stat) = Inr r4"
    and ul: "os_utime_nofollow r4 fp (st_atime stat) (st_mtime stat) = Inr r5"
    and v': "v' = v\<lparr>fs := r5, issues := issues v @
            [Moved (size_mb_of stat) rel' (backup_dir v @ rel')]\<rparr>"
    by (rule move_large_file_Returned)
  from rel rel' have e: "rel' = rel" by simp
  let ?bp = "backup_dir v @ rel"
  from mk f have f1: "lookup r1 fp = Inr (File b st)"
    by (rule mkdir_parents_keeps) simp
  with stat have s: "stat = st" by (simp add: os_stat_File)
  from isdir obtain n where n: "lookup (fs v) ?bp = Inr n"
    by (cases "lookup (fs v) ?bp") (simp_all add: os_path_isdir_def follow_Inl)
  have "\<exists>st' es'. lookup (fs v) (butlast ?bp) = Inr (Dir st' es')"
  proof (cases "?bp = []")
    case True
    from mk obtain st' es' where "fs v = Dir st' es'" using mkdir_parents_Dir by blast
    with True show ?thesis by simp
  next
    case False
    with n have "lookup (fs v) (butlast ?bp @ [last ?bp]) = Inr n" by simp
    then show ?thesis using lookup_below by blast
  qed
  then obtain st0 es0 where "lookup (fs v) (butlast ?bp) = Inr (Dir st0 es0)" by blast
  then have "mkdir_parents (clock v) (fs v) (butlast ?bp) = Inr (fs v)"
    by (rule mkdir_parents_existing)
  with mk have "r1 = fs v" by (simp add: e)
  with isdir have d1: "os_path_isdir r1 ?bp" by simp
  from f1 d1 have l5: "lookup r5 fp =
      Inr (Symlink ?bp \<lparr>st_size = length (path_str ?bp),
             st_atime = st_atime st, st_mtime = st_mtime st\<rparr>)"
    using mv ln ut ul unfolding s e by (rule relocate_into_dir(1))
  from f1 d1 have b5: "\<exists>st' es'. lookup r5 ?bp =
      Inr (Dir (st'\<lparr>st_atime := st_atime st, st_mtime := st_mtime st\<rparr>) es')"
    using mv ln ut ul unfolding s e by (rule relocate_into_dir(2))
  from f1 d1 have m5: "lookup r5 (?bp @ [last fp]) = Inr (File b st)"
    using mv ln ut ul unfolding s e by (rule relocate_into_dir(3))
  from b5 obtain st' es' where b: "lookup r5 ?bp =
      Inr (Dir (st'\<lparr>st_atime := st_atime st, st_mtime := st_mtime st\<rparr>) es')" by blast
  have "follow r5 max_links fp =
      Inr (?bp, Dir (st'\<lparr>st_atime := st_atime st, st_mtime := st_mtime st\<rparr>) es')"
    unfolding max_links_def by (simp add: follow_Symlink [OF l5] follow_Dir [OF b])
  then have rb: "read_bytes r5 fp = Inl IsADirectoryError"
    by (simp add: read_bytes_def)
  have "fs v' = r5" by (simp add: v')
  with l5 b5 m5 rb show ?thesis by simp
qed

text \<open>
  C7 at \<^verbatim>\<open>/repo/a.bin\<close> with \<^verbatim>\<open>/backup/a.bin\<close> an existing directory.
  \<^verbatim>\<open>shutil.move\<close> puts the file inside it, \<^verbatim>\<open>move_large_file\<close> returns, and the link
  at \<^verbatim>\<open>/repo/a.bin\<close> leads to the directory: reading through the original path raises
  \<^verbatim>\<open>IsADirectoryError\<close>.
\<close>

theorem relocation_onto_directory_breaks_round_trip:
  "lookup (fs taken_validator) [''repo'', ''a.bin''] =
     Inr (File ''x'' \<lparr>st_size = 157286400, st_atime = 11, st_mtime = 7\<rparr>) \<and>
   move_large_file taken_validator [''repo'', ''a.bin''] = Returned taken_relocated \<and>
   read_bytes (fs taken_relocated) [''repo'', ''a.bin''] = Inl IsADirectoryError \<and>
   read_bytes (fs taken_relocated) [''backup'', ''a.bin''] = Inl IsADirectoryError"
proof -
  have f: "lookup (fs taken_validator) [''repo'', ''a.bin''] =
     Inr (File ''x'' \<lparr>st_size = 157286400, st_atime = 11, st_mtime = 7\<rparr>)"
    by (simp add: taken_validator_def taken_world_def GitHubValidator_init_def)
  have r: "read_bytes (fs taken_relocated) [''repo'', ''a.bin''] = Inl IsADirectoryError"
    "read_bytes (fs taken_relocated) [''backup'', ''a.bin''] = Inl IsADirectoryError"
    by (simp_all add: taken_relocated_def read_bytes_def max_links_def follow_numeral)
  from f taken_relocation r show ?thesis by simp
qed

text \<open>
  C6 at \<^verbatim>\<open>/repo/a.bin\<close> with \<^verbatim>\<open>/backup/a.bin\<close> an existing directory.
  \<^verbatim>\<open>move_large_file\<close> returns and enters the move to \<^verbatim>\<open>/backup/a.bin\<close> in the
  issues, but that path still names the directory, which now holds the file: the file
  is not at the mirrored destination, and \<^verbatim>\<open>os.utime\<close> has put the captured times
  (11 and 7) on the directory, whose own times (0 and 0) are lost, instead of on the
  backup file. With no \<^verbatim>\<open>/backup\<close> yet, the same call makes that directory and
  leaves the file, with its times, at \<^verbatim>\<open>/backup/a.bin\<close>.
\<close>

theorem relocation_onto_directory_stamps_the_directory:
  "move_large_file taken_validator [''repo'', ''a.bin''] = Returned taken_relocated \<and>
   lookup (fs taken_validator) [''backup'', ''a.bin''] =
     Inr (Dir \<lparr>st_size = 4096, st_atime = 0, st_mtime = 0\<rparr> []) \<and>
   lookup (fs taken_relocated) [''backup'', ''a.bin''] =
     Inr (Dir \<lparr>st_size = 4096, st_atime = 11, st_mtime = 7\<rparr>
       [(''a.bin'', File ''x'' \<lparr>st_size = 157286400, st_atime = 11, st_mtime = 7\<rparr>)]) \<and>
   issues taken_relocated = [Moved 150 [''a.bin''] [''backup'', ''a.bin'']] \<and>
   move_large_file fresh_validator [''repo'', ''a.bin''] = Returned fresh_relocated \<and>
   lookup (fs fresh_validator) [''backup''] = Inl FileNotFoundError \<and>
   lookup (fs fresh_relocated) [''backup'', ''a.bin''] =
     Inr (File ''x'' \<lparr>st_size = 157286400, st_atime = 11, st_mtime = 7\<rparr>) \<and>
   issues fresh_relocated = [Moved 150 [''a.bin''] [''backup'', ''a.bin'']]"
proof -
  have t: "lookup (fs taken_validator) [''backup'', ''a.bin''] =
     Inr (Dir \<lparr>st_size = 4096, st_atime = 0, st_mtime = 0\<rparr> [])"
    by (simp add: taken_validator_def taken_world_def GitHubValidator_init_def
        stat_of_size_def)
  have t': "lookup (fs taken_relocated) [''backup'', ''a.bin''] =
     Inr (Dir \<lparr>st_size = 4096, st_atime = 11, st_mtime = 7\<rparr>
       [(''a.bin'', File ''x'' \<lparr>st_size = 157286400, st_atime = 11, st_mtime = 7\<rparr>)])"
    "issues taken_relocated = [Moved 150 [''a.bin''] [''backup'', ''a.bin'']]"
    by (simp_all add: taken_relocated_def)
  have f: "lookup (fs fresh_validator) [''backup''] = Inl FileNotFoundError"
    by (simp add: fresh_validator_def fresh_world_def GitHubValidator_init_def)
  have f': "lookup (fs fresh_relocated) [''backup'', ''a.bin''] =
     Inr (File ''x'' \<lparr>st_size = 157286400, st_atime = 11, st_mtime = 7\<rparr>)"
    "issues fresh_relocated = [Moved 150 [''a.bin''] [''backup'', ''a.bin'']]"
    by (simp_all add: fresh_relocated_def)
  from taken_relocation t t' fresh_relocation f f' show ?thesis by simp
qed

text \<open>
  The relocation of \<^verbatim>\<open>/repo/a.bin\<close> with no backup directory yet, from the general
  statement: the call returns, \<^verbatim>\<open>/backup\<close> is a directory afterwards and the file is
  at \<^verbatim>\<open>/backup/a.bin\<close>.
\<close>

theorem relocation_to_free_destination_at_fresh:
  "\<exists>v'. move_large_file fresh_validator [''repo'', ''a.bin''] = Returned v' \<and>
     (\<exists>st' es'. lookup (fs v') [''backup''] = Inr (Dir st' es')) \<and>
     lookup (fs v') [''backup'', ''a.bin''] =
       Inr (File ''x'' \<lparr>st_size = 157286400, st_atime = 11, st_mtime = 7\<rparr>)"
proof -
  have f: "lookup (fs fresh_validator) [''repo'', ''a.bin''] =
     Inr (File ''x'' \<lparr>st_size = 157286400, st_atime = 11, st_mtime = 7\<rparr>)"
    by (simp add: fresh_validator_def fresh_world_def GitHubValidator_init_def)
  have rel: "relative_to [''repo'', ''a.bin''] (repo_dir fresh_validator) = Some [''a.bin'']"
    by (simp add: fresh_validator_def GitHubValidator_init_def relative_to_def)
  have bd: "backup_dir fresh_validator = [''backup'']"
    by (simp add: fresh_validator_def GitHubValidator_init_def)
  have way: "\<forall>q. prefix q (butlast (backup_dir fresh_validator @ [''a.bin''])) \<longrightarrow>
        lookup (fs fresh_validator) q = Inl FileNotFoundError \<or>
        (\<exists>st' es'. lookup (fs fresh_validator) q = Inr (Dir st' es'))"
    by (auto simp: bd prefix_Cons fresh_validator_def fresh_world_def GitHubValidator_init_def)
  have free: "lookup (fs fresh_validator) (backup_dir fresh_validator @ [''a.bin'']) =
      Inl FileNotFoundError"
    by (simp add: fresh_validator_def fresh_world_def GitHubValidator_init_def)
  from relocation_to_free_destination [OF f rel way free]
  obtain v' where ok: "move_large_file fresh_validator [''repo'', ''a.bin''] = Returned v'"
    and d: "\<forall>q. prefix q (butlast (backup_dir fresh_validator @ [''a.bin''])) \<longrightarrow>
        (\<exists>st' es'. lookup (fs v') q = Inr (Dir st' es'))"
    and b: "lookup (fs v') (backup_dir fresh_validator @ [''a.bin'']) =
       Inr (File ''x'' \<lparr>st_size = 157286400, st_atime = 11, st_mtime = 7\<rparr>)"
    by blast
  from d have "\<exists>st' es'. lookup (fs v') [''backup''] = Inr (Dir st' es')"
    by (simp add: bd)
  with ok b show ?thesis by (auto simp: bd)
qed


lemma move_large_file_raises_quietly:
  "raised (move_large_file v p) = None \<or> issues (state_of (move_large_file v p)) = issues v"
  by (simp add: move_large_file_def Let_def split: option.split sum.split)

lemma is_file_File: "lookup r p = Inr (File b st) \<Longrightarrow> is_file r p = Inr True"
  by (simp add: is_file_def follow_File)

lemma is_symlink_File: "lookup r p = Inr (File b st) \<Longrightarrow> is_symlink r p = Inr False"
  by (simp add: is_symlink_def)

text \<open>
  C2, as the code has it. Revision 2 reaches a regular file \<open>fp\<close> over the maximum
  with automatic relocation on, and \<^verbatim>\<open>move_large_file\<close> raises \<open>e\<close>. Then the
  file-size loop ends with \<open>e\<close> at \<open>fp\<close>, whatever paths \<open>ps\<close> were still to
  come; the issues hold the size violation of \<open>fp\<close> and nothing about the failure;
  and when it was the move step that failed, the tree is the one that creating the
  backup directories left, with the file still at \<open>fp\<close>.
\<close>

theorem failed_relocation_ends_the_pass:
  assumes f: "lookup (fs v) fp = Inr (File b st)"
    and rel: "relative_to fp (repo_dir v) = Some rel"
    and a: "auto_move v"
    and big: "size_mb_of st > MAX_GITHUB_FILESIZE_MB"
    and fail: "move_large_file (v\<lparr>issues := issues v @ [FileError rel (size_mb_of st)]\<rparr>) fp =
        Raised e v'"
  shows "for_each file_body_ver2 v (fp # ps) = Raised e v' \<and>
     issues v' = issues v @ [FileError rel (size_mb_of st)] \<and>
     (mkdir_parents (clock v) (fs v) (butlast (backup_dir v @ rel)) = Inr r1 \<and>
      shutil_move r1 fp (backup_dir v @ rel) = Inl e' \<longrightarrow>
      e = e' \<and> fs v' = r1 \<and> lookup (fs v') fp = Inr (File b st))"
proof -
  let ?v1 = "v\<lparr>issues := issues v @ [FileError rel (size_mb_of st)]\<rparr>"
  have h: "handle_file_size_ver2 v fp (size_mb_of st) = Raised e v'"
    using rel a big fail by (simp add: handle_file_size_ver2_def Let_def)
  have b: "file_body_ver2 v fp = Raised e v'"
    using f h by (simp add: file_body_ver2_def is_file_File is_symlink_File os_stat_File)
  then have c1: "for_each file_body_ver2 v (fp # ps) = Raised e v'"
    by simp
  have c2: "issues v' = issues v @ [FileError rel (size_mb_of st)]"
    using move_large_file_raises_quietly [of ?v1 fp] fail by simp
  have c3: "e = e' \<and> fs v' = r1 \<and> lookup (fs v') fp = Inr (File b st)"
    if mk: "mkdir_parents (clock v) (fs v) (butlast (backup_dir v @ rel)) = Inr r1"
      and mv: "shutil_move r1 fp (backup_dir v @ rel) = Inl e'"
  proof -
    from mk f have f1: "lookup r1 fp = Inr (File b st)"
      by (rule mkdir_parents_keeps) simp
    then have "os_stat r1 fp = Inr st" by (rule os_stat_File)
    with rel mk mv have "move_large_file ?v1 fp = Raised e' (?v1\<lparr>fs := r1\<rparr>)"
      by (simp add: move_large_file_def Let_def)
    with fail have "e = e'" and "v' = ?v1\<lparr>fs := r1\<rparr>" by simp_all
    with f1 show ?thesis by simp
  qed
  from c1 c2 c3 show ?thesis by blast
qed

lemma blocked_facts:
  "lookup (fs blocked_validator) [''repo'', ''a.bin''] =
     Inr (File ''x'' \<lparr>st_size = 157286400, st_atime = 11, st_mtime = 7\<rparr>)"
  "relative_to [''repo'', ''a.bin''] (repo_dir blocked_validator) = Some [''a.bin'']"
  "auto_move blocked_validator"
  "size_mb_of \<lparr>st_size = 157286400, st_atime = 11, st_mtime = 7\<rparr> = 150"
  "mkdir_parents (clock blocked_validator) (fs blocked_validator)
     (butlast (backup_dir blocked_validator @ [''a.bin''])) = Inr blocked_world"
  "shutil_move blocked_world [''repo'', ''a.bin''] (backup_dir blocked_validator @ [''a.bin'']) =
     Inl ShutilError"
  by (simp_all add: blocked_validator_def blocked_world_def GitHubValidator_init_def os_defs)

lemma blocked_move:
  "move_large_file (blocked_validator\<lparr>issues := issues blocked_validator @
       [FileError [''a.bin''] (size_mb_of \<lparr>st_size = 157286400, st_atime = 11, st_mtime = 7\<rparr>)]\<rparr>)
     [''repo'', ''a.bin''] = Raised ShutilError blocked_reported"
  by (simp add: move_large_file_def blocked_reported_def blocked_validator_def
      blocked_world_def GitHubValidator_init_def os_defs Let_def)
lemma blocked_big:
  "size_mb_of \<lparr>st_size = 157286400, st_atime = 11, st_mtime = 7\<rparr> > MAX_GITHUB_FILESIZE_MB"
  by (simp add: blocked_facts(4) MAX_GITHUB_FILESIZE_MB_def)

lemma blocked_body:
  "file_body_ver2 blocked_validator [''repo'', ''a.bin''] = Raised ShutilError blocked_reported"
proof -
  have "handle_file_size_ver2 blocked_validator [''repo'', ''a.bin'']
      (size_mb_of \<lparr>st_size = 157286400, st_atime = 11, st_mtime = 7\<rparr>) =
      Raised ShutilError blocked_reported"
    using blocked_big blocked_move
    by (simp add: handle_file_size_ver2_def blocked_facts(2,3) Let_def)
  then show ?thesis
    by (simp add: file_body_ver2_def is_file_File [OF blocked_facts(1)]
        is_symlink_File [OF blocked_facts(1)] os_stat_File [OF blocked_facts(1)])
qed

lemma blocked_loop:
  "for_each file_body_ver2 blocked_validator [[''repo'', ''a.bin''], [''repo'', ''b.bin'']] =
     Raised ShutilError blocked_reported"
  by (simp add: blocked_body)

text \<open>
  C2 at \<^verbatim>\<open>/repo/a.bin\<close> where \<^verbatim>\<open>/backup/a.bin/a.bin\<close> exists: \<^verbatim>\<open>shutil.move\<close>
  raises \<^verbatim>\<open>shutil.Error\<close>.
\<close>

theorem failed_relocation_ends_the_pass_witness:
  "lookup (fs blocked_validator) [''repo'', ''a.bin''] =
     Inr (File ''x'' \<lparr>st_size = 157286400, st_atime = 11, st_mtime = 7\<rparr>) \<and>
   relative_to [''repo'', ''a.bin''] (repo_dir blocked_validator) = Some [''a.bin''] \<and>
   auto_move blocked_validator \<and>
   size_mb_of \<lparr>st_size = 157286400, st_atime = 11, st_mtime = 7\<rparr> > MAX_GITHUB_FILESIZE_MB \<and>
   for_each file_body_ver2 blocked_validator [[''repo'', ''a.bin''], [''repo'', ''b.bin'']] =
     Raised ShutilError blocked_reported \<and>
   issues blocked_reported = issues blocked_validator @ [FileError [''a.bin''] 150] \<and>
   mkdir_parents (clock blocked_validator) (fs blocked_validator)
     (butlast (backup_dir blocked_validator @ [''a.bin''])) = Inr blocked_world \<and>
   shutil_move blocked_world [''repo'', ''a.bin''] (backup_dir blocked_validator @ [''a.bin'']) =
     Inl ShutilError \<and>
   fs blocked_reported = blocked_world \<and>
   lookup (fs blocked_reported) [''repo'', ''a.bin''] =
     Inr (File ''x'' \<lparr>st_size = 157286400, st_atime = 11, st_mtime = 7\<rparr>)"
proof -
  note t = failed_relocation_ends_the_pass [OF blocked_facts(1,2,3) blocked_big blocked_move,
      of "[[''repo'', ''b.bin'']]" blocked_world ShutilError]
  from t have c1: "for_each file_body_ver2 blocked_validator
      [[''repo'', ''a.bin''], [''repo'', ''b.bin'']] = Raised ShutilError blocked_reported"
    by (rule conjunct1)
  from t have c2: "issues blocked_reported =
      issues blocked_validator @ [FileError [''a.bin''] 150]"
    unfolding blocked_facts(4) by blast
  from t blocked_facts(5,6) have c3: "fs blocked_reported = blocked_world \<and>
      lookup (fs blocked_reported) [''repo'', ''a.bin''] =
        Inr (File ''x'' \<lparr>st_size = 157286400, st_atime = 11, st_mtime = 7\<rparr>)"
    by blast
  show ?thesis
    using blocked_facts(1,2,3) blocked_big c1 c2 blocked_facts(5,6) c3 by blast
qed

text \<open>
  C2, where the claim fails: after the failed relocation of \<^verbatim>\<open>/repo/a.bin\<close> the
  pass of revision 2 is over. The issues hold the size violation of \<^verbatim>\<open>a.bin\<close> alone:
  no record of the failure, and nothing about \<^verbatim>\<open>/repo/b.bin\<close>, a regular file of
  150 MiB that was next in the listing.
\<close>

theorem failed_relocation_is_not_recorded:
  "check_file_sizes_ver2 blocked_validator = blocked_reported \<and>
   issues blocked_reported = [FileError [''a.bin''] 150] \<and>
   size_mb_of (stat_of_size 157286400) > MAX_GITHUB_FILESIZE_MB \<and>
   is_file (fs blocked_reported) [''repo'', ''b.bin''] = Inr True \<and>
   os_stat (fs blocked_reported) [''repo'', ''b.bin''] = Inr (stat_of_size 157286400)"
proof -
  have r: "rglob (fs blocked_validator) (repo_dir blocked_validator) =
      [[''repo'', ''a.bin''], [''repo'', ''b.bin'']]"
    by (simp add: blocked_validator_def blocked_world_def GitHubValidator_init_def rglob_def)
  have c: "check_file_sizes_ver2 blocked_validator = blocked_reported"
    unfolding check_file_sizes_ver2_def r blocked_loop by simp
  have i: "issues blocked_reported = [FileError [''a.bin''] 150]"
    by (simp add: blocked_reported_def)
  have s: "size_mb_of (stat_of_size 157286400) > MAX_GITHUB_FILESIZE_MB"
    by (simp add: size_mb_of_def stat_of_size_def MAX_GITHUB_FILESIZE_MB_def)
  have lb: "lookup (fs blocked_reported) [''repo'', ''b.bin''] =
      Inr (File ''y'' (stat_of_size 157286400))"
    by (simp add: blocked_reported_def blocked_validator_def blocked_world_def
        GitHubValidator_init_def)
  from c i s show ?thesis
    by (simp add: is_file_File [OF lb] os_stat_File [OF lb])
qed

end
